theory Spec2Isabelle
  imports Complex_Main "HOL-Library.List_Lexorder" "HOL-Library.Char_ord"
begin

section \<open>The weather chart script \<^verbatim>\<open>scripts/visualize.py\<close>\<close>

text \<open>
  The script has two functions and an entry point: \<^verbatim>\<open>load_data(year)\<close> reads three
  text files and falls back to synthetic data, \<^verbatim>\<open>create_tufte_visualization(year)\<close>
  draws and saves the chart, and the \<^verbatim>\<open>__main__\<close> block turns the result into an exit
  code.  The embedding below follows the source statement by statement.  What belongs to
  the libraries is modelled as follows.
  \<^item> Numbers in tables are real numbers; floating-point rounding is not modelled.  A
    missing cell of the pivoted temperature table (pandas' NaN) is \<open>None\<close>.  Of the
    column dtypes only that of the temperature table is kept, because the renderer
    depends on it.
  \<^item> A file is either missing, or \<^verbatim>\<open>pd.read_csv\<close> / \<^verbatim>\<open>pd.to_datetime\<close> raise on it, or
    it parses to a list of rows in file order.
  \<^item> \<^verbatim>\<open>np.random\<close> is a source of draws handed to the functions: every universally
    quantified statement holds for every outcome of the generator.
  \<^item> \<^verbatim>\<open>pd.Timestamp\<close> and \<^verbatim>\<open>pd.date_range\<close> work at nanosecond resolution
    (1677-09-21 to 2262-04-11), so a whole calendar year is representable exactly for
    the years 1678 to 2261; outside they raise \<^verbatim>\<open>OutOfBoundsDatetime\<close>.  (The
    year is formatted as \<^verbatim>\<open>f"{year}-01-01"\<close>; what the date parser makes of a year
    that is not written with four digits is not modelled, such a year counts as out of
    range, and no theorem below is instantiated at one.)
  \<^item> An exception is a value: a function that can raise returns \<open>error + 'a\<close>, with
    \<open>Inl\<close> for the exception.
\<close>

subsection \<open>Exceptions\<close>

datatype error =
  FileNotFoundError | ParserError | ValueError | KeyError | TypeError | OutOfBoundsDatetime
  | OSError

text \<open>\<^verbatim>\<open>try: body  except Exception as e: handler(e)\<close>: the handler may raise itself.\<close>

definition try_except :: "error + 'a \<Rightarrow> (error \<Rightarrow> error + 'a) \<Rightarrow> error + 'a" where
  "try_except body handler = (case body of Inl e \<Rightarrow> handler e | Inr v \<Rightarrow> Inr v)"

definition bind :: "error + 'a \<Rightarrow> ('a \<Rightarrow> error + 'b) \<Rightarrow> error + 'b" where
  "bind m f = (case m of Inl e \<Rightarrow> Inl e | Inr v \<Rightarrow> f v)"

subsection \<open>Calendar dates\<close>

datatype date = Date (yr: int) (mon: nat) (dy: nat)

definition is_leap :: "int \<Rightarrow> bool" where
  "is_leap y = (y mod 4 = 0 \<and> (y mod 100 \<noteq> 0 \<or> y mod 400 = 0))"

definition days_in_month :: "int \<Rightarrow> nat \<Rightarrow> nat" where
  "days_in_month y m =
     (if m = 2 then (if is_leap y then 29 else 28)
      else if m = 4 \<or> m = 6 \<or> m = 9 \<or> m = 11 then 30 else 31)"

definition days_in_year :: "int \<Rightarrow> nat" where
  "days_in_year y = (if is_leap y then 366 else 365)"

definition valid_date :: "date \<Rightarrow> bool" where
  "valid_date d = (1 \<le> mon d \<and> mon d \<le> 12 \<and> 1 \<le> dy d \<and> dy d \<le> days_in_month (yr d) (mon d))"

text \<open>\<^verbatim>\<open>date.dayofyear\<close>: the days of the earlier months of the year, plus the day.\<close>

definition days_before_month :: "int \<Rightarrow> nat \<Rightarrow> nat" where
  "days_before_month y m = sum_list (map (days_in_month y) [1..<m])"

definition dayofyear :: "date \<Rightarrow> nat" where
  "dayofyear d = days_before_month (yr d) (mon d) + dy d"

text \<open>The proleptic Gregorian ordinal (day 1 is 0001-01-01), and matplotlib's
  \<^verbatim>\<open>mdates.date2num\<close>: days since 1970-01-01 as a float.\<close>

definition days_before_year :: "int \<Rightarrow> int" where
  "days_before_year y = 365 * (y - 1) + (y - 1) div 4 - (y - 1) div 100 + (y - 1) div 400"

definition ordinal :: "date \<Rightarrow> int" where
  "ordinal d = days_before_year (yr d) + int (dayofyear d)"

definition date2num :: "date \<Rightarrow> real" where
  "date2num d = real_of_int (ordinal d - 719163)"

definition date_le :: "date \<Rightarrow> date \<Rightarrow> bool" where
  "date_le a b =
     (yr a < yr b \<or> (yr a = yr b \<and> (mon a < mon b \<or> (mon a = mon b \<and> dy a \<le> dy b))))"

definition next_day :: "date \<Rightarrow> date" where
  "next_day d =
     (if dy d < days_in_month (yr d) (mon d) then Date (yr d) (mon d) (dy d + 1)
      else if mon d < 12 then Date (yr d) (mon d + 1) 1
      else Date (yr d + 1) 1 1)"

text \<open>\<^verbatim>\<open>pd.date_range(start, end, freq='D')\<close>: every day from \<open>start\<close> to \<open>end\<close>,
  both included.\<close>

function date_range :: "date \<Rightarrow> date \<Rightarrow> date list" where
  "date_range s e = (if date_le s e then s # date_range (next_day s) e else [])"
  by pat_completeness auto
termination
proof (relation "measures [\<lambda>(s, e). nat (yr e + 1 - yr s), \<lambda>(s, e). 13 - mon s, \<lambda>(s, e). 32 - dy s]")
  show "wf (measures [\<lambda>(s, e). nat (yr e + 1 - yr s), \<lambda>(s, e). 13 - mon s, \<lambda>(s, e). 32 - dy s])"
    by simp
next
  fix s e
  assume le: "date_le s e"
  have dim: "days_in_month (yr s) (mon s) \<le> 31"
    by (simp add: days_in_month_def)
  have yrs: "yr s \<le> yr e"
    using le by (auto simp: date_le_def)
  show "((next_day s, e), (s, e))
      \<in> measures [\<lambda>(s, e). nat (yr e + 1 - yr s), \<lambda>(s, e). 13 - mon s, \<lambda>(s, e). 32 - dy s]"
    using dim yrs by (auto simp: next_day_def)
qed

declare date_range.simps [simp del]

text \<open>\<^verbatim>\<open>pd.date_range(start, end, freq='MS')\<close>: the month starts in the range.\<close>

definition month_starts :: "date \<Rightarrow> date \<Rightarrow> date list" where
  "month_starts s e = filter (\<lambda>d. dy d = 1) (date_range s e)"

text \<open>The years whose days a nanosecond \<^verbatim>\<open>Timestamp\<close> can hold.\<close>

definition timestamp_ok :: "int \<Rightarrow> bool" where
  "timestamp_ok y = (1678 \<le> y \<and> y \<le> 2261)"

definition year_dates :: "int \<Rightarrow> error + date list" where
  "year_dates y =
     (if timestamp_ok y then Inr (date_range (Date y 1 1) (Date y 12 31))
      else Inl OutOfBoundsDatetime)"

subsection \<open>Tables\<close>

text \<open>A one-column table indexed by date is the list of its rows; the pivoted
  temperature table has named columns, and a row holds one cell per column.  Its
  columns are either numeric (\<^verbatim>\<open>float64\<close>) or hold Python objects (\<^verbatim>\<open>object\<close>).\<close>

datatype dtype = Float64 | Object

record temp_table =
  columns :: "string list"
  rows :: "(date \<times> real option list) list"
  dtype :: dtype

definition index :: "temp_table \<Rightarrow> date list" where
  "index t = map fst (rows t)"

type_synonym temp_row = "date \<times> real \<times> string"

text \<open>\<^verbatim>\<open>temp_data.pivot(index='date', columns='type', values='temp')\<close>: one row per
  date and one column per type, both sorted; a (date, type) pair that occurs twice
  raises \<^verbatim>\<open>ValueError\<close>, one that does not occur leaves a missing cell.  The values
  come from a numeric column of the file, so the result is numeric.\<close>

definition pivot :: "temp_row list \<Rightarrow> error + temp_table" where
  "pivot temp_data =
     (if \<not> distinct (map (\<lambda>(d, v, k). (d, k)) temp_data) then Inl ValueError
      else
        let idx = sort_key ordinal (remdups (map (\<lambda>(d, v, k). d) temp_data));
            cols = sort (remdups (map (\<lambda>(d, v, k). k) temp_data));
            cell = map_of (map (\<lambda>(d, v, k). ((d, k), v)) temp_data)
        in Inr \<lparr>columns = cols, rows = map (\<lambda>d. (d, map (\<lambda>k. cell (d, k)) cols)) idx,
                dtype = Float64\<rparr>)"

fun col_index :: "string \<Rightarrow> string list \<Rightarrow> nat option" where
  "col_index k [] = None"
| "col_index k (c # cs) = (if c = k then Some 0 else map_option Suc (col_index k cs))"

text \<open>\<^verbatim>\<open>table['TMAX']\<close>: the column, or \<^verbatim>\<open>KeyError\<close>.\<close>

definition column :: "temp_table \<Rightarrow> string \<Rightarrow> error + (date \<times> real option) list" where
  "column t k =
     (case col_index k (columns t) of
        None \<Rightarrow> Inl KeyError
      | Some j \<Rightarrow> Inr (map (\<lambda>(d, cells). (d, cells ! j)) (rows t)))"

text \<open>\<^verbatim>\<open>table.groupby(table.index.month)[col].agg()\<close>: one entry per month that occurs
  in the index, in ascending order, aggregating the values of the rows of that month.\<close>

definition month_keys :: "(date \<times> 'a) list \<Rightarrow> nat list" where
  "month_keys tbl = sort (remdups (map (\<lambda>r. mon (fst r)) tbl))"

definition month_values :: "nat \<Rightarrow> (date \<times> 'a) list \<Rightarrow> 'a list" where
  "month_values m tbl = map snd (filter (\<lambda>r. mon (fst r) = m) tbl)"

definition groupby_month :: "('a list \<Rightarrow> 'b) \<Rightarrow> (date \<times> 'a) list \<Rightarrow> (nat \<times> 'b) list" where
  "groupby_month agg tbl = map (\<lambda>m. (m, agg (month_values m tbl))) (month_keys tbl)"

definition mean :: "real list \<Rightarrow> real" where
  "mean vs = sum_list vs / real (length vs)"

text \<open>The mean of a column with missing cells skips them; a group with none left
  has a missing mean.\<close>

definition present :: "real option list \<Rightarrow> real list" where
  "present cells = concat (map (\<lambda>c. case c of None \<Rightarrow> [] | Some v \<Rightarrow> [v]) cells)"

definition mean_skipna :: "real option list \<Rightarrow> real option" where
  "mean_skipna cells = (if present cells = [] then None else Some (mean (present cells)))"

subsection \<open>Files and random draws\<close>

datatype 'r csv_file = Missing | Unparsable | Parsed "'r list"

record files =
  temperatures :: "temp_row csv_file"
  precipitation :: "(date \<times> real) csv_file"
  humidity :: "(date \<times> real) csv_file"

text \<open>\<^verbatim>\<open>pd.read_csv\<close> followed by \<^verbatim>\<open>pd.to_datetime\<close> on the date column.\<close>

definition read_csv :: "'r csv_file \<Rightarrow> error + 'r list" where
  "read_csv f =
     (case f of Missing \<Rightarrow> Inl FileNotFoundError | Unparsable \<Rightarrow> Inl ParserError
      | Parsed rs \<Rightarrow> Inr rs)"

definition exists_file :: "'r csv_file \<Rightarrow> bool" where
  "exists_file f = (case f of Missing \<Rightarrow> False | _ \<Rightarrow> True)"

record rng =
  standard_normal :: "nat \<Rightarrow> real"
  standard_exponential :: "nat \<Rightarrow> real"
  random_integer :: "nat \<Rightarrow> nat"

text \<open>\<^verbatim>\<open>np.random.normal(mu, sigma)\<close>, the \<open>k\<close>-th draw.\<close>

definition normal :: "rng \<Rightarrow> nat \<Rightarrow> real \<Rightarrow> real \<Rightarrow> real" where
  "normal g k mu sigma = mu + sigma * standard_normal g k"

text \<open>\<^verbatim>\<open>np.random.exponential(scale, size=n)\<close>.\<close>

definition exponential :: "rng \<Rightarrow> real \<Rightarrow> nat \<Rightarrow> real list" where
  "exponential g scale n = map (\<lambda>i. scale * standard_exponential g i) [0..<n]"

text \<open>\<^verbatim>\<open>np.random.randint(low, high, size=n)\<close>: integers from \<open>low\<close> (included) to
  \<open>high\<close> (excluded).\<close>

definition randint :: "rng \<Rightarrow> nat \<Rightarrow> nat \<Rightarrow> nat \<Rightarrow> real list" where
  "randint g low high n = map (\<lambda>i. real (low + random_integer g i mod (high - low))) [0..<n]"

subsection \<open>The loader \<^verbatim>\<open>load_data\<close>\<close>

record data_bundle =
  temp_pivot :: temp_table
  precip_data :: "(date \<times> real) list"
  humidity_data :: "(date \<times> real) list"
  monthly_tmax_normal :: "(nat \<times> real option) list"
  monthly_tmin_normal :: "(nat \<times> real option) list"
  monthly_precip_normal :: "(nat \<times> real) list"
  monthly_precip_actual :: "(nat \<times> real) list"

text \<open>Lines 57--58 and 62--63: a humidity table on the index of the temperature
  table, filled by \<^verbatim>\<open>np.random.randint(30, 80, size=len(humidity_data))\<close>.\<close>

definition dummy_humidity :: "rng \<Rightarrow> temp_table \<Rightarrow> (date \<times> real) list" where
  "dummy_humidity g tp = zip (index tp) (randint g 30 80 (length (index tp)))"

text \<open>Lines 49--63, the inner \<^verbatim>\<open>try\<close>.\<close>

definition load_humidity :: "files \<Rightarrow> rng \<Rightarrow> temp_table \<Rightarrow> error + (date \<times> real) list" where
  "load_humidity fs g tp =
     try_except
       (if exists_file (humidity fs) then read_csv (humidity fs)
        else Inr (dummy_humidity g tp))
       (\<lambda>e. Inr (dummy_humidity g tp))"

text \<open>Lines 65--73, and again 113--121: the monthly mappings and the returned tuple.\<close>

definition aggregate ::
    "temp_table \<Rightarrow> (date \<times> real) list \<Rightarrow> (date \<times> real) list \<Rightarrow> error + data_bundle" where
  "aggregate tp precip hum =
     bind (column tp ''TMAX'') (\<lambda>tmax.
     bind (column tp ''TMIN'') (\<lambda>tmin.
       Inr \<lparr>temp_pivot = tp, precip_data = precip, humidity_data = hum,
            monthly_tmax_normal = groupby_month mean_skipna tmax,
            monthly_tmin_normal = groupby_month mean_skipna tmin,
            monthly_precip_normal = groupby_month (\<lambda>vs. mean vs * 30) precip,
            monthly_precip_actual = groupby_month sum_list precip\<rparr>))"

text \<open>Lines 19--73, the body of the outer \<^verbatim>\<open>try\<close>.\<close>

definition load_files :: "files \<Rightarrow> rng \<Rightarrow> error + data_bundle" where
  "load_files fs g =
     bind (if \<not> exists_file (temperatures fs) then Inl FileNotFoundError
           else read_csv (temperatures fs)) (\<lambda>temp_data.
     bind (pivot temp_data) (\<lambda>tp.
     bind (if \<not> exists_file (precipitation fs) then Inl FileNotFoundError
           else read_csv (precipitation fs)) (\<lambda>precip.
     bind (load_humidity fs g tp) (\<lambda>hum.
       aggregate tp precip hum))))"

text \<open>Lines 91--102: the seasonal model of the synthetic temperatures.\<close>

definition seasonal_factor :: "date \<Rightarrow> real" where
  "seasonal_factor d = sin (2 * pi * real (dayofyear d) / 365)"

definition tmax_base :: "date \<Rightarrow> real" where
  "tmax_base d = 75 + 25 * seasonal_factor d"

definition tmin_base :: "date \<Rightarrow> real" where
  "tmin_base d = 45 + 25 * seasonal_factor d"

text \<open>The loop over the dates; \<open>k\<close> counts the normal draws taken so far.\<close>

fun synth_temps :: "rng \<Rightarrow> nat \<Rightarrow> date list \<Rightarrow> (date \<times> real option list) list" where
  "synth_temps g k [] = []"
| "synth_temps g k (d # ds) =
     (d, [Some (tmax_base d + normal g k 0 5), Some (tmin_base d + normal g (k + 1) 0 5)])
       # synth_temps g (k + 2) ds"

definition clip :: "real \<Rightarrow> real \<Rightarrow> real \<Rightarrow> real" where
  "clip lower upper x = min upper (max lower x)"

text \<open>Lines 76--121, the handler of the outer \<^verbatim>\<open>try\<close>.  The temperature table is
  created empty by \<^verbatim>\<open>pd.DataFrame(index=dates, columns=['TMAX', 'TMIN'])\<close>, which gives
  it \<^verbatim>\<open>object\<close> columns, and it is filled cell by cell through \<^verbatim>\<open>.loc\<close>, which
  keeps them so.  (The precipitation and humidity columns are assigned as whole arrays
  and are numeric.)\<close>

definition dummy_data :: "rng \<Rightarrow> int \<Rightarrow> error + data_bundle" where
  "dummy_data g year =
     bind (year_dates year) (\<lambda>dates.
       let n = length dates;
           tp = \<lparr>columns = [''TMAX'', ''TMIN''], rows = synth_temps g 0 dates,
                 dtype = Object\<rparr>;
           precip = zip dates (exponential g (1 / 10) n);
           hum = zip dates
                  (map (\<lambda>i. clip 10 100
                         (50 + 20 * sin (2 * pi * real i / 365) + normal g (2 * n + i) 0 10))
                     [0..<n])
       in aggregate tp precip hum)"

definition load_data :: "files \<Rightarrow> rng \<Rightarrow> int \<Rightarrow> error + data_bundle" where
  "load_data fs g year = try_except (load_files fs g) (\<lambda>e. dummy_data g year)"

subsection \<open>The renderer \<^verbatim>\<open>create_tufte_visualization\<close> and the entry point\<close>

text \<open>\<^verbatim>\<open>series[m]\<close> on a monthly mapping.\<close>

definition getitem :: "(nat \<times> 'a) list \<Rightarrow> nat \<Rightarrow> error + 'a" where
  "getitem series m = (case map_of series m of None \<Rightarrow> Inl KeyError | Some v \<Rightarrow> Inr v)"

text \<open>\<^verbatim>\<open>series.get(m, 0)\<close>.\<close>

definition get_default :: "(nat \<times> real) list \<Rightarrow> nat \<Rightarrow> real \<Rightarrow> real" where
  "get_default series m dflt = (case map_of series m of None \<Rightarrow> dflt | Some v \<Rightarrow> v)"

text \<open>A list comprehension whose element expression can raise.\<close>

fun comprehension :: "('a \<Rightarrow> error + 'b) \<Rightarrow> 'a list \<Rightarrow> error + 'b list" where
  "comprehension f [] = Inr []"
| "comprehension f (x # xs) =
     bind (f x) (\<lambda>y. bind (comprehension f xs) (\<lambda>ys. Inr (y # ys)))"

text \<open>\<^verbatim>\<open>np.interp(x, xp, fp)\<close> at one point, over the anchors \<open>zip xp fp\<close> with \<open>xp\<close>
  increasing: the value of the first anchor to its left, of the last anchor to its
  right, and on the segment between two anchors
  \<^verbatim>\<open>slope * (x - xp[j]) + fp[j]\<close> with \<^verbatim>\<open>slope = (fp[j+1] - fp[j]) / (xp[j+1] - xp[j])\<close>.
  A missing value of an anchor makes the segment's values missing, except at the
  anchor \<^verbatim>\<open>xp[j]\<close> itself, where \<^verbatim>\<open>fp[j]\<close> is returned as it is.\<close>

definition segment :: "real \<Rightarrow> real \<Rightarrow> real option \<Rightarrow> real \<Rightarrow> real option \<Rightarrow> real option" where
  "segment x x0 y0 x1 y1 =
     (if x = x0 then y0
      else case (y0, y1) of
             (Some a, Some b) \<Rightarrow> Some ((b - a) / (x1 - x0) * (x - x0) + a)
           | _ \<Rightarrow> None)"

fun interp_from :: "real \<Rightarrow> (real \<times> real option) list \<Rightarrow> real option" where
  "interp_from x [] = None"
| "interp_from x [(x0, y0)] = y0"
| "interp_from x ((x0, y0) # (x1, y1) # ps) =
     (if x < x1 then segment x x0 y0 x1 y1 else interp_from x ((x1, y1) # ps))"

definition interp1 :: "real \<Rightarrow> (real \<times> real option) list \<Rightarrow> real option" where
  "interp1 x ps = (case ps of [] \<Rightarrow> None | (x0, y0) # _ \<Rightarrow> if x < x0 then y0 else interp_from x ps)"

definition interp :: "real list \<Rightarrow> real list \<Rightarrow> real option list \<Rightarrow> error + real option list" where
  "interp xs xp fp =
     (if xp = [] \<or> length fp \<noteq> length xp then Inl ValueError
      else Inr (map (\<lambda>x. interp1 x (zip xp fp)) xs))"

text \<open>Lines 141--152: the normal line over every day of the year, from one of the
  two monthly temperature normals.\<close>

definition normal_line :: "int \<Rightarrow> (nat \<times> real option) list \<Rightarrow> error + real option list" where
  "normal_line year monthly_normal =
     (if \<not> timestamp_ok year then Inl OutOfBoundsDatetime
      else
        let months = month_starts (Date year 1 1) (Date year 12 31) in
        bind (comprehension (\<lambda>m. getitem monthly_normal (mon m)) months) (\<lambda>normal_t.
        bind (year_dates year) (\<lambda>extended_months.
          interp (map date2num extended_months) (map date2num months) normal_t)))"

text \<open>\<^verbatim>\<open>column.idxmax()\<close> and \<^verbatim>\<open>column.idxmin()\<close>: the date of the first row holding
  the extreme value, missing cells skipped; with no value at all the annotation that
  follows cannot be built and an exception is raised.\<close>

fun first_extreme ::
    "(real \<Rightarrow> real \<Rightarrow> bool) \<Rightarrow> (date \<times> real option) list \<Rightarrow> (date \<times> real) option" where
  "first_extreme better [] = None"
| "first_extreme better ((d, c) # rs) =
     (case c of
        None \<Rightarrow> first_extreme better rs
      | Some v \<Rightarrow>
          (case first_extreme better rs of
             None \<Rightarrow> Some (d, v)
           | Some (d', v') \<Rightarrow> if better v' v then Some (d', v') else Some (d, v)))"

definition idxmax :: "(date \<times> real option) list \<Rightarrow> error + date" where
  "idxmax col = (case first_extreme (\<lambda>a b. b < a) col of None \<Rightarrow> Inl ValueError | Some (d, v) \<Rightarrow> Inr d)"

definition idxmin :: "(date \<times> real option) list \<Rightarrow> error + date" where
  "idxmin col = (case first_extreme (\<lambda>a b. a < b) col of None \<Rightarrow> Inl ValueError | Some (d, v) \<Rightarrow> Inr d)"

text \<open>Line 138, \<^verbatim>\<open>ax1.fill_between(index, TMAX, TMIN, ...)\<close>: matplotlib tests the
  values with \<^verbatim>\<open>np.isfinite\<close>, which raises \<^verbatim>\<open>TypeError\<close> on \<^verbatim>\<open>object\<close> columns.\<close>

definition fill_between :: "temp_table \<Rightarrow> error + unit" where
  "fill_between t = (case dtype t of Object \<Rightarrow> Inl TypeError | Float64 \<Rightarrow> Inr ())"

text \<open>What the renderer runs in: the three files of the year, the random generator,
  and the outcome of creating the output directory and writing the image file, lines
  264--269 (\<open>None\<close> when neither \<^verbatim>\<open>os.makedirs\<close> nor \<^verbatim>\<open>plt.savefig\<close> raises).  The calls
  into matplotlib and pandas that are not modelled below (the figure and its axes, the
  bars, the texts, the monthly resampling) are taken to succeed on the values that
  reach them.\<close>

record environment =
  env_files :: files
  env_rng :: rng
  env_savefig :: "error option"

text \<open>Lines 128--273, the body of the renderer's \<^verbatim>\<open>try\<close>.\<close>

definition draw :: "environment \<Rightarrow> int \<Rightarrow> error + unit" where
  "draw env year =
     bind (load_data (env_files env) (env_rng env) year) (\<lambda>b.
     bind (column (temp_pivot b) ''TMAX'') (\<lambda>tmax.
     bind (column (temp_pivot b) ''TMIN'') (\<lambda>tmin.
     bind (fill_between (temp_pivot b)) (\<lambda>u.
     bind (normal_line year (monthly_tmax_normal b)) (\<lambda>extended_tmax.
     bind (normal_line year (monthly_tmin_normal b)) (\<lambda>extended_tmin.
     bind (idxmax tmax) (\<lambda>max_temp_idx.
     bind (idxmin tmin) (\<lambda>min_temp_idx.
       case env_savefig env of Some e \<Rightarrow> Inl e | None \<Rightarrow> Inr ()))))))))"

definition create_tufte_visualization :: "environment \<Rightarrow> int \<Rightarrow> error + bool" where
  "create_tufte_visualization env year =
     try_except (bind (draw env year) (\<lambda>u. Inr True)) (\<lambda>e. Inr False)"

text \<open>The \<^verbatim>\<open>__main__\<close> block, returning the exit code of the process.  \<open>argv\<close> is
  \<^verbatim>\<open>sys.argv\<close>; \<open>py_int\<close> is Python's \<^verbatim>\<open>int\<close> on a string, which raises
  \<^verbatim>\<open>ValueError\<close> on what is not a number.  \<^verbatim>\<open>sys.exit(1)\<close> raises \<^verbatim>\<open>SystemExit\<close>,
  which is no \<^verbatim>\<open>Exception\<close>: the handler does not see it and the process exits
  with 1.  Falling off the end of the script exits with 0.\<close>

definition main :: "(string \<Rightarrow> error + int) \<Rightarrow> environment \<Rightarrow> string list \<Rightarrow> int" where
  "main py_int env argv =
     (case try_except
             (bind (if length argv > 1 then py_int (argv ! 1) else Inr 1980) (\<lambda>year.
              bind (create_tufte_visualization env year) (\<lambda>success.
                if \<not> success then Inr 1 else Inr 0)))
             (\<lambda>e. Inr 1)
      of Inl e \<Rightarrow> 1 | Inr code \<Rightarrow> code)"

subsection \<open>Auxiliary definitions for the proofs\<close>

text \<open>The days of one month and of one year, and the inputs at which the theorems
  below are instantiated: two generators with constant draws, six states of the three
  files (the last one has a day of temperatures and precipitation in each month), and
  three environments: no file at all, the twelve-month files, and the twelve-month
  files with an output file that cannot be written.\<close>

definition month_days :: "int \<Rightarrow> nat \<Rightarrow> date list" where
  "month_days y m = map (Date y m) [1..<Suc (days_in_month y m)]"

definition zero_rng :: rng where
  "zero_rng = \<lparr>standard_normal = (\<lambda>k. 0), standard_exponential = (\<lambda>k. 0), random_integer = (\<lambda>k. 0)\<rparr>"


definition no_files :: files where
  "no_files = \<lparr>temperatures = Missing, precipitation = Missing, humidity = Missing\<rparr>"

definition year_days :: "int \<Rightarrow> date list" where
  "year_days y = date_range (Date y 1 1) (Date y 12 31)"

definition sample_files :: files where
  "sample_files =
     \<lparr>temperatures = Parsed [(Date 2023 3 5, 40, ''TMAX''), (Date 2023 3 5, 30, ''TMIN'')],
      precipitation = Parsed [(Date 2023 3 5, 1 / 2), (Date 2023 3 6, 3 / 2)],
      humidity = Missing\<rparr>"




definition no_files_env :: environment where
  "no_files_env = \<lparr>env_files = no_files, env_rng = zero_rng, env_savefig = None\<rparr>"

definition monthly_files :: files where
  "monthly_files =
     \<lparr>temperatures = Parsed (concat (map (\<lambda>m. [(Date 2023 m 15, 50, ''TMAX''), (Date 2023 m 15, 40, ''TMIN'')]) [1..<13])),
      precipitation = Parsed (map (\<lambda>m. (Date 2023 m 15, 1 / 2)) [1..<13]),
      humidity = Missing\<rparr>"

definition monthly_env :: environment where
  "monthly_env = \<lparr>env_files = monthly_files, env_rng = zero_rng, env_savefig = None\<rparr>"

definition unwritable_env :: environment where
  "unwritable_env = \<lparr>env_files = monthly_files, env_rng = zero_rng, env_savefig = Some OSError\<rparr>"

text \<open>For the normal line: the first day of a month, the twelve anchors of the
  interpolation from month \<open>k\<close> on, and the value on the segment that starts at the
  anchor of month \<open>m\<close>.\<close>

definition anchors :: "(nat \<Rightarrow> real) \<Rightarrow> (nat \<Rightarrow> real) \<Rightarrow> nat \<Rightarrow> (real \<times> real option) list" where
  "anchors A V k = map (\<lambda>m. (A m, Some (V m))) [k..<13]"

definition on_segment :: "(nat \<Rightarrow> real) \<Rightarrow> (nat \<Rightarrow> real) \<Rightarrow> nat \<Rightarrow> real \<Rightarrow> real" where
  "on_segment A V m x =
     (if m = 12 then V 12 else (V (Suc m) - V m) / (A (Suc m) - A m) * (x - A m) + V m)"

definition first_of_month :: "int \<Rightarrow> nat \<Rightarrow> date" where
  "first_of_month y m = Date y m 1"

section \<open>Auxiliary lemmas\<close>

subsection \<open>Exceptions and monthly aggregation\<close>

lemma bind_Inr_iff: "bind m f = Inr v \<longleftrightarrow> (\<exists>x. m = Inr x \<and> f x = Inr v)"
  by (cases m) (simp_all add: bind_def)

lemma bind_Inl_iff: "bind m f = Inl e \<longleftrightarrow> (m = Inl e \<or> (\<exists>x. m = Inr x \<and> f x = Inl e))"
  by (cases m) (simp_all add: bind_def)

lemma try_except_Inr_iff:
  "try_except m h = Inr v \<longleftrightarrow> (m = Inr v \<or> (\<exists>e. m = Inl e \<and> h e = Inr v))"
  by (cases m) (simp_all add: try_except_def)

lemma map_of_groupby_month:
  "map_of (groupby_month agg tbl) m =
     (if m \<in> (\<lambda>r. mon (fst r)) ` set tbl then Some (agg (month_values m tbl)) else None)"
proof -
  have "map_of (map (\<lambda>k. (k, agg (month_values k tbl))) ks) m =
          (if m \<in> set ks then Some (agg (month_values m tbl)) else None)" for ks
    by (induction ks) auto
  then show ?thesis
    by (simp add: groupby_month_def month_keys_def)
qed

lemma month_values_absent:
  "m \<notin> (\<lambda>r. mon (fst r)) ` set tbl \<Longrightarrow> month_values m tbl = []"
  by (auto simp: month_values_def filter_empty_conv)

lemma aggregate_Inr:
  assumes "aggregate tp precip hum = Inr b"
  shows "temp_pivot b = tp" "precip_data b = precip" "humidity_data b = hum"
    "monthly_precip_normal b = groupby_month (\<lambda>vs. mean vs * 30) precip"
    "monthly_precip_actual b = groupby_month sum_list precip"
  using assms by (auto simp: aggregate_def bind_Inr_iff)

lemma load_data_Inr_cases:
  assumes "load_data fs g year = Inr b"
  obtains "load_files fs g = Inr b"
  | e where "load_files fs g = Inl e" "dummy_data g year = Inr b"
  using assms by (auto simp: load_data_def try_except_Inr_iff)

lemma load_files_aggregate:
  assumes "load_files fs g = Inr b"
  shows "\<exists>tp precip hum. aggregate tp precip hum = Inr b"
  using assms by (auto simp: load_files_def bind_Inr_iff)

lemma dummy_data_aggregate:
  assumes "dummy_data g year = Inr b"
  shows "\<exists>tp precip hum. aggregate tp precip hum = Inr b"
  using assms by (auto simp: dummy_data_def bind_Inr_iff Let_def)

lemma load_data_aggregate:
  assumes "load_data fs g year = Inr b"
  shows "\<exists>tp precip hum. aggregate tp precip hum = Inr b"
  using assms by (auto elim!: load_data_Inr_cases dest: load_files_aggregate dummy_data_aggregate)

lemma load_data_monthly_precip:
  assumes "load_data fs g year = Inr b"
  shows "monthly_precip_normal b = groupby_month (\<lambda>vs. mean vs * 30) (precip_data b)"
    and "monthly_precip_actual b = groupby_month sum_list (precip_data b)"
  using load_data_aggregate [OF assms] by (auto dest: aggregate_Inr)

subsection \<open>The days of a year\<close>

lemma days_in_month_pos: "0 < days_in_month y m"
  by (simp add: days_in_month_def)

lemma date_range_rest_of_month:
  assumes "d \<le> days_in_month y m" and "date_le (Date y m (days_in_month y m)) e"
  shows "date_range (Date y m d) e =
           map (Date y m) [d..<Suc (days_in_month y m)]
             @ date_range (next_day (Date y m (days_in_month y m))) e"
  using assms
proof (induction "days_in_month y m - d" arbitrary: d)
  case 0
  then have d: "d = days_in_month y m" by simp
  show ?case
    using "0.prems"(2) unfolding d
    by (subst date_range.simps) simp
next
  case (Suc n)
  then have lt: "d < days_in_month y m" by simp
  have le: "date_le (Date y m d) e"
    using Suc.prems(2) lt by (auto simp: date_le_def)
  have nd: "next_day (Date y m d) = Date y m (Suc d)"
    using lt by (simp add: next_day_def)
  have IH: "date_range (Date y m (Suc d)) e =
           map (Date y m) [Suc d..<Suc (days_in_month y m)]
             @ date_range (next_day (Date y m (days_in_month y m))) e"
    using Suc.hyps(1) [of "Suc d"] Suc.hyps(2) Suc.prems(2) lt by simp
  have "date_range (Date y m d) e = Date y m d # date_range (Date y m (Suc d)) e"
    using le nd by (subst date_range.simps) simp
  also have "\<dots> = map (Date y m) [d..<Suc (days_in_month y m)]
             @ date_range (next_day (Date y m (days_in_month y m))) e"
    using lt by (simp add: IH upt_conv_Cons)
  finally show ?case .
qed

lemma date_range_from_month:
  assumes "1 \<le> m" "m \<le> 12"
  shows "date_range (Date y m 1) (Date y 12 31) = concat (map (month_days y) [m..<13])"
  using assms
proof (induction "12 - m" arbitrary: m)
  case 0
  then have m: "m = 12" by simp
  have dim: "days_in_month y 12 = 31" by (simp add: days_in_month_def)
  have "date_range (Date y 12 1) (Date y 12 31) =
          month_days y 12 @ date_range (next_day (Date y 12 (days_in_month y 12))) (Date y 12 31)"
    unfolding month_days_def
    by (rule date_range_rest_of_month) (simp_all add: dim date_le_def)
  moreover have "date_range (next_day (Date y 12 (days_in_month y 12))) (Date y 12 31) = []"
    by (subst date_range.simps) (simp add: next_day_def dim date_le_def)
  ultimately show ?case
    unfolding m by simp
next
  case (Suc n)
  then have lt: "m < 12" by simp
  have le: "date_le (Date y m (days_in_month y m)) (Date y 12 31)"
    using lt by (simp add: date_le_def)
  have nd: "next_day (Date y m (days_in_month y m)) = Date y (Suc m) 1"
    using lt by (simp add: next_day_def)
  have IH: "date_range (Date y (Suc m) 1) (Date y 12 31) = concat (map (month_days y) [Suc m..<13])"
  proof (rule Suc.hyps(1))
    show "n = 12 - Suc m" using Suc.hyps(2) by simp
    show "1 \<le> Suc m" by simp
    show "Suc m \<le> 12" using lt by simp
  qed
  have "date_range (Date y m 1) (Date y 12 31) =
          month_days y m @ date_range (Date y (Suc m) 1) (Date y 12 31)"
    using date_range_rest_of_month [OF _ le, of 1] days_in_month_pos [of y m]
    by (simp add: nd month_days_def)
  also have "\<dots> = concat (map (month_days y) (m # [Suc m..<13]))"
    unfolding IH by simp
  also have "m # [Suc m..<13] = [m..<13]"
    using lt by (simp add: upt_conv_Cons)
  finally show ?case .
qed

lemma year_range: "date_range (Date y 1 1) (Date y 12 31) = concat (map (month_days y) [1..<13])"
  using date_range_from_month [of 1 y] by simp

lemma months_of_year: "[1..<13] = [1, 2, 3, 4, 5, 6, 7, 8, 9, 10, 11, 12::nat]"
  by code_simp

lemma length_month_days: "length (month_days y m) = days_in_month y m"
  by (simp add: month_days_def)

lemma length_year_range: "length (date_range (Date y 1 1) (Date y 12 31)) = days_in_year y"
  unfolding year_range months_of_year
  by (simp add: length_month_days days_in_month_def days_in_year_def)

lemma set_month_days: "set (month_days y m) = {d. yr d = y \<and> mon d = m \<and> 1 \<le> dy d \<and> dy d \<le> days_in_month y m}"
proof -
  have "d \<in> set (month_days y m) \<longleftrightarrow> yr d = y \<and> mon d = m \<and> 1 \<le> dy d \<and> dy d \<le> days_in_month y m" for d
    by (cases d) (auto simp: month_days_def)
  then show ?thesis by blast
qed

lemma set_year_range: "set (date_range (Date y 1 1) (Date y 12 31)) = {d. yr d = y \<and> valid_date d}"
proof -
  have "set (date_range (Date y 1 1) (Date y 12 31)) = (\<Union>m\<in>{1..<13}. set (month_days y m))"
    by (subst year_range) (simp add: image_image del: upt_Suc)
  also have "\<dots> = {d. yr d = y \<and> valid_date d}"
    by (auto simp: set_month_days valid_date_def)
  finally show ?thesis .
qed

lemma hd_month_days: "hd (month_days y m) = Date y m 1"
  using days_in_month_pos [of y m] by (simp add: month_days_def upt_conv_Cons del: upt_Suc)

lemma distinct_month_days: "distinct (month_days y m)"
  by (simp add: month_days_def distinct_map inj_on_def)

lemma distinct_year_range: "distinct (date_range (Date y 1 1) (Date y 12 31))"
  unfolding year_range
proof (rule distinct_concat)
  show "distinct (map (month_days y) [1..<13])"
  proof (simp only: distinct_map, intro conjI)
    show "distinct [1..<13::nat]" by simp
    show "inj_on (month_days y) (set [1..<13])"
    proof (rule inj_onI)
      fix a b assume "month_days y a = month_days y b"
      then have "hd (month_days y a) = hd (month_days y b)" by simp
      then show "a = b"
        by (simp add: hd_month_days)
    qed
  qed
next
  fix ys assume "ys \<in> set (map (month_days y) [1..<13])"
  then show "distinct ys" by (auto simp: distinct_month_days)
next
  fix ys zs
  assume "ys \<in> set (map (month_days y) [1..<13])" "zs \<in> set (map (month_days y) [1..<13])" "ys \<noteq> zs"
  then show "set ys \<inter> set zs = {}"
    by (auto simp: set_month_days)
qed

lemma days_before_month_Suc: "1 \<le> m \<Longrightarrow> days_before_month y (Suc m) = days_before_month y m + days_in_month y m"
  by (simp add: days_before_month_def)

subsection \<open>The synthetic data and the two paths of the loader\<close>

lemma map_fst_synth_temps: "map fst (synth_temps g k ds) = ds"
  by (induction ds arbitrary: k) simp_all

lemma year_dates_ok: "timestamp_ok year \<Longrightarrow> year_dates year = Inr (year_days year)"
  by (simp add: year_dates_def year_days_def)

lemma aggregate_synthetic:
  "\<exists>b. aggregate \<lparr>columns = [''TMAX'', ''TMIN''], rows = rs, dtype = ty\<rparr> precip hum = Inr b"
  by (simp add: aggregate_def bind_def column_def)

lemma dummy_data_returns:
  assumes "timestamp_ok year"
  shows "\<exists>b. dummy_data g year = Inr b
           \<and> columns (temp_pivot b) = [''TMAX'', ''TMIN'']
           \<and> rows (temp_pivot b) = synth_temps g 0 (year_days year)
           \<and> precip_data b = zip (year_days year) (exponential g (1 / 10) (length (year_days year)))"
proof -
  let ?tp = "\<lparr>columns = [''TMAX'', ''TMIN''], rows = synth_temps g 0 (year_days year), dtype = Object\<rparr>"
  let ?precip = "zip (year_days year) (exponential g (1 / 10) (length (year_days year)))"
  let ?hum = "zip (year_days year)
                  (map (\<lambda>i. clip 10 100
                         (50 + 20 * sin (2 * pi * real i / 365)
                            + normal g (2 * length (year_days year) + i) 0 10))
                     [0..<length (year_days year)])"
  obtain b where b: "aggregate ?tp ?precip ?hum = Inr b"
    using aggregate_synthetic by blast
  have "dummy_data g year = Inr b"
    by (simp add: dummy_data_def year_dates_ok [OF assms] bind_def Let_def b)
  moreover have "temp_pivot b = ?tp" "precip_data b = ?precip"
    using aggregate_Inr [OF b] by simp_all
  ultimately show ?thesis by simp
qed

lemma dummy_data_raises: "\<not> timestamp_ok year \<Longrightarrow> dummy_data g year = Inl OutOfBoundsDatetime"
  by (simp add: dummy_data_def year_dates_def bind_def)

lemma load_data_fallback: "load_files fs g = Inl e \<Longrightarrow> load_data fs g year = dummy_data g year"
  by (simp add: load_data_def try_except_def)

lemma load_data_primary: "load_files fs g = Inr b \<Longrightarrow> load_data fs g year = Inr b"
  by (simp add: load_data_def try_except_def)

lemma load_files_no_files: "load_files no_files g = Inl FileNotFoundError"
  by (simp add: load_files_def no_files_def exists_file_def bind_def)

lemma length_exponential: "length (exponential g s n) = n"
  by (simp add: exponential_def)

lemma length_year_days: "length (year_days y) = days_in_year y"
  unfolding year_days_def by (rule length_year_range)

subsection \<open>The loader on the sample inputs\<close>

lemma pivot_sample:
  "pivot [(Date 2023 3 5, 40, ''TMAX''), (Date 2023 3 5, 30, ''TMIN'')]
     = Inr \<lparr>columns = [''TMAX'', ''TMIN''], rows = [(Date 2023 3 5, [Some 40, Some 30])], dtype = Float64\<rparr>"
  by (simp add: pivot_def)


lemma load_data_sample_files:
  "load_data sample_files g year =
     Inr \<lparr>temp_pivot = \<lparr>columns = [''TMAX'', ''TMIN''],
                         rows = [(Date 2023 3 5, [Some 40, Some 30])], dtype = Float64\<rparr>,
          precip_data = [(Date 2023 3 5, 1 / 2), (Date 2023 3 6, 3 / 2)],
          humidity_data = [(Date 2023 3 5, real (30 + random_integer g 0 mod 50))],
          monthly_tmax_normal = [(3, Some 40)], monthly_tmin_normal = [(3, Some 30)],
          monthly_precip_normal = [(3, 30)], monthly_precip_actual = [(3, 2)]\<rparr>"
  by (simp add: load_data_def load_files_def sample_files_def try_except_def bind_def
      exists_file_def read_csv_def pivot_sample load_humidity_def dummy_humidity_def index_def
      randint_def aggregate_def column_def groupby_month_def month_keys_def month_values_def
      mean_skipna_def present_def mean_def)



subsection \<open>When the primary load succeeds\<close>






subsection \<open>The seasonal model, the random draws and the renderer\<close>


lemma months_before_july: "[1..<7] = [1, 2, 3, 4, 5, 6::nat]"
  by code_simp

lemma days_before_july: "days_before_month y 7 = (if is_leap y then 182 else 181)"
  unfolding days_before_month_def months_before_july by (simp add: days_in_month_def)

lemma dayofyear_january:
  assumes "valid_date d" "mon d = 1"
  shows "1 \<le> dayofyear d \<and> dayofyear d \<le> 31"
  using assms by (simp add: valid_date_def dayofyear_def days_before_month_def days_in_month_def)

lemma dayofyear_july:
  assumes "valid_date d" "mon d = 7"
  shows "182 \<le> dayofyear d \<and> dayofyear d \<le> 213"
  using assms by (simp add: valid_date_def dayofyear_def days_before_july days_in_month_def)

lemma sin_early_year:
  assumes "1 \<le> a" "a \<le> (31::nat)"
  shows "sin (2 * pi / 365) \<le> sin (2 * pi * real a / 365)"
proof (rule sin_monotone_2pi_le)
  have "0 < pi" by simp
  show "- (pi / 2) \<le> 2 * pi / 365"
    using pi_gt_zero by (simp add: field_simps)
  have "1 \<le> real a" using assms(1) by simp
  then have "pi * 1 \<le> pi * real a"
    by (intro mult_left_mono) simp_all
  then show "2 * pi / 365 \<le> 2 * pi * real a / 365"
    by simp
  have "real a \<le> 31" using assms(2) by simp
  then have "pi * real a \<le> pi * 31"
    by (intro mult_left_mono) simp_all
  then show "2 * pi * real a / 365 \<le> pi / 2"
    using pi_gt_zero by (simp add: field_simps)
qed

lemma sin_mid_year:
  assumes "182 \<le> b" "b \<le> (213::nat)"
  shows "sin (2 * pi * real b / 365) < sin (2 * pi / 365)"
proof (cases "b = 182")
  case True
  have "2 * pi * real (182::nat) / 365 = pi - pi / 365"
    by (simp add: field_simps)
  then have "sin (2 * pi * real (182::nat) / 365) = sin (pi / 365)"
    by (simp only: sin_pi_minus)
  also have "\<dots> < sin (2 * pi / 365)"
  proof (rule sin_monotone_2pi)
    show "- (pi / 2) \<le> pi / 365" using pi_gt_zero by (simp add: field_simps)
    show "pi / 365 < 2 * pi / 365" using pi_gt_zero by simp
    show "2 * pi / 365 \<le> pi / 2" using pi_gt_zero by (simp add: field_simps)
  qed
  finally show ?thesis using True by simp
next
  case False
  then have lo: "183 \<le> real b" using assms(1) by simp
  have hi: "real b \<le> 213" using assms(2) by simp
  have "pi * 183 \<le> pi * real b"
    using lo by (intro mult_left_mono) simp_all
  then have "pi < 2 * pi * real b / 365"
    using pi_gt_zero by (simp add: field_simps)
  moreover have "pi * real b \<le> pi * 213"
    using hi by (intro mult_left_mono) simp_all
  then have "2 * pi * real b / 365 < 2 * pi"
    using pi_gt_zero by (simp add: field_simps)
  ultimately have "sin (2 * pi * real b / 365) < 0"
    by (rule sin_lt_zero)
  moreover have "0 < sin (2 * pi / 365)"
  proof (rule sin_gt_zero)
    show "0 < 2 * pi / 365" by simp
    show "2 * pi / 365 < pi" using pi_gt_zero by (simp add: field_simps)
  qed
  ultimately show ?thesis by simp
qed

lemma create_tufte_visualization_cases:
  "create_tufte_visualization env year = (case draw env year of Inl e \<Rightarrow> Inr False | Inr u \<Rightarrow> Inr True)"
  by (simp add: create_tufte_visualization_def try_except_def bind_def split: sum.split)

lemma draw_no_files_3000: "draw no_files_env 3000 = Inl OutOfBoundsDatetime"
  by (simp add: draw_def no_files_env_def load_data_fallback [OF load_files_no_files]
      dummy_data_raises timestamp_ok_def bind_def)

subsection \<open>The normal line and the renderer on the synthetic data\<close>

lemma filter_first_day: "filter (\<lambda>d. dy d = 1) (month_days y m) = [Date y m 1]"
proof -
  have "1 < Suc (days_in_month y m)"
    using days_in_month_pos [of y m] by simp
  then have up: "[1..<Suc (days_in_month y m)] = 1 # [Suc 1..<Suc (days_in_month y m)]"
    by (rule upt_conv_Cons)
  have "filter (\<lambda>k. k = 1) [Suc 1..<Suc (days_in_month y m)] = []"
    by (auto simp: filter_empty_conv simp del: upt_Suc)
  then have "filter (\<lambda>k. k = 1) [1..<Suc (days_in_month y m)] = [1]"
    unfolding up by simp
  then show ?thesis
    by (simp add: month_days_def filter_map comp_def del: upt_Suc)
qed

lemma month_starts_year:
  "month_starts (Date y 1 1) (Date y 12 31) = map (\<lambda>m. Date y m 1) [1..<13]"
proof -
  have "month_starts (Date y 1 1) (Date y 12 31)
          = concat (map (\<lambda>m. filter (\<lambda>d. dy d = 1) (month_days y m)) [1..<13])"
    unfolding month_starts_def year_range by (simp only: filter_concat map_map comp_def)
  also have "\<dots> = concat (map (\<lambda>m. [Date y m 1]) [1..<13])"
    by (simp only: filter_first_day)
  also have "\<dots> = map (\<lambda>m. Date y m 1) [1..<13]"
    by (induction "[1..<13::nat]") (simp_all del: upt_Suc add: concat_map_singleton)
  finally show ?thesis .
qed

lemma comprehension_map:
  "(\<And>x. x \<in> set xs \<Longrightarrow> f x = Inr (h x)) \<Longrightarrow> comprehension f xs = Inr (map h xs)"
  by (induction xs) (simp_all add: bind_def)

lemma anchors_last: "anchors A V 12 = [(A 12, Some (V 12))]"
  by (simp add: anchors_def)

lemma anchors_step: "k \<le> 12 \<Longrightarrow> anchors A V k = (A k, Some (V k)) # anchors A V (Suc k)"
  by (simp add: anchors_def upt_conv_Cons del: upt_Suc)

lemma anchors_step2:
  assumes "k < 12"
  shows "anchors A V k = (A k, Some (V k)) # (A (Suc k), Some (V (Suc k))) # anchors A V (Suc (Suc k))"
proof -
  have "anchors A V k = (A k, Some (V k)) # anchors A V (Suc k)"
    using assms by (intro anchors_step) simp
  also have "anchors A V (Suc k) = (A (Suc k), Some (V (Suc k))) # anchors A V (Suc (Suc k))"
    using assms by (intro anchors_step) simp
  finally show ?thesis .
qed

lemma increasing_anchors:
  fixes A :: "nat \<Rightarrow> real"
  assumes "\<And>m. 1 \<le> m \<Longrightarrow> m < 12 \<Longrightarrow> A m < A (Suc m)" "1 \<le> a" "a \<le> b" "b \<le> 12"
  shows "A a \<le> A b"
  using assms(3,4)
proof (induction b)
  case 0
  then show ?case by simp
next
  case (Suc b)
  show ?case
  proof (cases "a = Suc b")
    case True
    then show ?thesis by simp
  next
    case False
    then have ab: "a \<le> b" using Suc.prems(1) by simp
    then have "A a \<le> A b" using Suc by simp
    moreover have "A b < A (Suc b)" using assms(1) [of b] assms(2) ab Suc.prems(2) by simp
    ultimately show ?thesis by simp
  qed
qed

lemma interp_from_anchors:
  fixes A :: "nat \<Rightarrow> real"
  assumes inc: "\<And>m. 1 \<le> m \<Longrightarrow> m < 12 \<Longrightarrow> A m < A (Suc m)"
    and "k \<le> m" "m \<le> 12" "A m \<le> x" "m < 12 \<Longrightarrow> x < A (Suc m)" "1 \<le> k"
  shows "interp_from x (anchors A V k) = Some (on_segment A V m x)"
  using assms(2,6)
proof (induction "m - k" arbitrary: k)
  case 0
  then have km: "k = m" by simp
  show ?case
  proof (cases "m = 12")
    case True
    then show ?thesis
      by (simp add: km anchors_last on_segment_def)
  next
    case False
    then have lt: "m < 12" using assms(3) by simp
    have "interp_from x (anchors A V m)
            = segment x (A m) (Some (V m)) (A (Suc m)) (Some (V (Suc m)))"
      using assms(5) [OF lt] by (simp add: anchors_step2 [OF lt])
    also have "\<dots> = Some (on_segment A V m x)"
      using False by (simp add: segment_def on_segment_def)
    finally show ?thesis by (simp add: km)
  qed
next
  case (Suc n)
  then have lt: "k < 12" and km: "Suc k \<le> m" using assms(3) by simp_all
  have "A (Suc k) \<le> A m"
    by (rule increasing_anchors [where A = A, OF inc _ km assms(3)]) simp_all
  then have nlt: "\<not> x < A (Suc k)" using assms(4) by simp
  have "interp_from x (anchors A V k)
          = interp_from x ((A (Suc k), Some (V (Suc k))) # anchors A V (Suc (Suc k)))"
    using nlt by (simp add: anchors_step2 [OF lt])
  also have "(A (Suc k), Some (V (Suc k))) # anchors A V (Suc (Suc k)) = anchors A V (Suc k)"
    using lt by (intro anchors_step [symmetric]) simp
  finally have step: "interp_from x (anchors A V k) = interp_from x (anchors A V (Suc k))" .
  have "interp_from x (anchors A V (Suc k)) = Some (on_segment A V m x)"
  proof (rule Suc.hyps(1))
    show "n = m - Suc k" using Suc.hyps(2) by simp
    show "Suc k \<le> m" by (rule km)
    show "1 \<le> Suc k" by simp
  qed
  then show ?case by (simp only: step)
qed

lemma interp1_anchors:
  fixes A :: "nat \<Rightarrow> real"
  assumes inc: "\<And>m. 1 \<le> m \<Longrightarrow> m < 12 \<Longrightarrow> A m < A (Suc m)"
    and "1 \<le> m" "m \<le> 12" "A m \<le> x" "m < 12 \<Longrightarrow> x < A (Suc m)"
  shows "interp1 x (anchors A V 1) = Some (on_segment A V m x)"
proof -
  have "A 1 \<le> A m"
    by (rule increasing_anchors [where A = A, OF inc _ assms(2,3)]) simp_all
  then have "\<not> x < A 1" using assms(4) by simp
  moreover have "anchors A V 1 = (A 1, Some (V 1)) # anchors A V (Suc 1)"
    by (rule anchors_step) simp
  ultimately have "interp1 x (anchors A V 1) = interp_from x (anchors A V 1)"
    by (simp add: interp1_def)
  moreover have "interp_from x (anchors A V 1) = Some (on_segment A V m x)"
    by (rule interp_from_anchors [where A = A, OF inc assms(2-5)]) simp_all
  ultimately show ?thesis by simp
qed

lemma date2num_day:
  "1 \<le> d \<Longrightarrow> date2num (Date y m d) = date2num (first_of_month y m) + real (d - 1)"
  by (simp add: first_of_month_def date2num_def ordinal_def dayofyear_def)

lemma date2num_next_month:
  "1 \<le> m \<Longrightarrow>
     date2num (first_of_month y (Suc m)) = date2num (first_of_month y m) + real (days_in_month y m)"
  by (simp add: first_of_month_def date2num_def ordinal_def dayofyear_def days_before_month_Suc)

lemma month_start_increasing:
  "1 \<le> m \<Longrightarrow> date2num (first_of_month y m) < date2num (first_of_month y (Suc m))"
  using days_in_month_pos [of y m] by (simp add: date2num_next_month)

lemma set_year_days: "set (year_days y) = {d. yr d = y \<and> valid_date d}"
  unfolding year_days_def by (rule set_year_range)

lemma interp1_year_day:
  assumes "d \<in> set (year_days y)"
  shows "interp1 (date2num d) (anchors (\<lambda>m. date2num (first_of_month y m)) V 1)
           = Some (on_segment (\<lambda>m. date2num (first_of_month y m)) V (mon d) (date2num d))"
proof (rule interp1_anchors)
  have v: "yr d = y" "valid_date d"
    using assms unfolding set_year_days by simp_all
  then have d: "d = Date y (mon d) (dy d)"
    by (cases d) simp
  have m: "1 \<le> mon d" "mon d \<le> 12" and k: "1 \<le> dy d" "dy d \<le> days_in_month y (mon d)"
    using v by (simp_all add: valid_date_def)
  have x: "date2num d = date2num (first_of_month y (mon d)) + real (dy d - 1)"
    using date2num_day [OF k(1), of y "mon d"] d by simp
  show "1 \<le> mon d" "mon d \<le> 12" by (rule m)+
  show "date2num (first_of_month y (mon d)) \<le> date2num d"
    by (simp add: x)
  show "date2num d < date2num (first_of_month y (Suc (mon d)))" if "mon d < 12"
    using k by (simp add: x date2num_next_month [OF m(1)])
  show "date2num (first_of_month y n) < date2num (first_of_month y (Suc n))" if "1 \<le> n" "n < 12" for n
    using that(1) by (rule month_start_increasing)
qed

lemma month_starts_first_of_month:
  "month_starts (Date y 1 1) (Date y 12 31) = map (first_of_month y) [1..<13]"
  unfolding month_starts_year first_of_month_def ..

lemma zip_anchors:
  "zip (map date2num (map (first_of_month y) [1..<13])) (map (\<lambda>m. Some (V m)) [1..<13])
     = anchors (\<lambda>m. date2num (first_of_month y m)) V 1"
  unfolding anchors_def by (simp only: map_map zip_map_map zip_same_conv_map comp_def prod.case)

lemma first_of_month_in_year:
  assumes "m \<in> {1..12}"
  shows "first_of_month y m \<in> set (year_days y)"
  using assms days_in_month_pos [of y m]
  by (simp add: set_year_days first_of_month_def valid_date_def)

lemma normal_line_on_month_starts:
  assumes "timestamp_ok year"
    and "\<forall>m\<in>{1..12}. map_of monthly_normal m = Some (Some (v m))"
  shows "\<exists>line. normal_line year monthly_normal = Inr line
     \<and> line = map (\<lambda>d. Some (if mon d = 12 then v 12
                             else (v (Suc (mon d)) - v (mon d))
                                    / (date2num (first_of_month year (Suc (mon d)))
                                         - date2num (first_of_month year (mon d)))
                                    * (date2num d - date2num (first_of_month year (mon d)))
                                  + v (mon d)))
                (year_days year)
     \<and> length line = days_in_year year
     \<and> (\<forall>m\<in>{1..12}.
           map_of (zip (year_days year) line) (first_of_month year m) = Some (Some (v m)))"
proof -
  let ?A = "\<lambda>m. date2num (first_of_month year m)"
  let ?f = "\<lambda>d. Some (on_segment ?A v (mon d) (date2num d))"
  let ?line = "map ?f (year_days year)"
  have comp: "comprehension (\<lambda>m. getitem monthly_normal (mon m)) (map (first_of_month year) [1..<13])
                = Inr (map (\<lambda>m. Some (v m)) [1..<13])"
  proof -
    have "getitem monthly_normal (mon x) = Inr (Some (v (mon x)))"
      if "x \<in> set (map (first_of_month year) [1..<13])" for x
    proof -
      from that obtain m where "x = first_of_month year m" "m \<in> {1..12}"
        by auto
      then show ?thesis
        using assms(2) by (simp add: getitem_def first_of_month_def)
    qed
    then have "comprehension (\<lambda>m. getitem monthly_normal (mon m)) (map (first_of_month year) [1..<13])
                = Inr (map (\<lambda>d. Some (v (mon d))) (map (first_of_month year) [1..<13]))"
      by (rule comprehension_map)
    also have "map (\<lambda>d. Some (v (mon d))) (map (first_of_month year) [1..<13])
                 = map (\<lambda>m. Some (v m)) [1..<13]"
      by (simp add: first_of_month_def comp_def del: upt_Suc)
    finally show ?thesis .
  qed
  have itp: "interp (map date2num (year_days year))
               (map date2num (map (first_of_month year) [1..<13])) (map (\<lambda>m. Some (v m)) [1..<13])
             = Inr (map (\<lambda>x. interp1 x (anchors ?A v 1)) (map date2num (year_days year)))"
    unfolding interp_def zip_anchors by (simp del: upt_Suc)
  have line_eq: "map (\<lambda>x. interp1 x (anchors ?A v 1)) (map date2num (year_days year)) = ?line"
    unfolding map_map comp_def by (rule map_cong [OF refl]) (rule interp1_year_day)
  have nl: "normal_line year monthly_normal = Inr ?line"
    unfolding normal_line_def Let_def month_starts_first_of_month comp bind_def
      year_dates_ok [OF assms(1)] sum.case itp line_eq
    using assms(1) by simp
  have formula: "?line = map (\<lambda>d. Some (if mon d = 12 then v 12
                             else (v (Suc (mon d)) - v (mon d))
                                    / (date2num (first_of_month year (Suc (mon d)))
                                         - date2num (first_of_month year (mon d)))
                                    * (date2num d - date2num (first_of_month year (mon d)))
                                  + v (mon d)))
                (year_days year)"
    by (simp add: on_segment_def)
  have len: "length ?line = days_in_year year"
    by (simp add: length_year_days)
  have anchor: "map_of (zip (year_days year) ?line) (first_of_month year m) = Some (Some (v m))"
    if "m \<in> {1..12}" for m
  proof -
    have "map_of (zip (year_days year) ?line) (first_of_month year m) = Some (?f (first_of_month year m))"
      using first_of_month_in_year [OF that, of year] by (simp add: map_of_zip_map)
    also have "?f (first_of_month year m) = Some (v m)"
      by (simp add: on_segment_def first_of_month_def)
    finally show ?thesis .
  qed
  show ?thesis
    using nl formula len anchor by (intro exI [of _ ?line]) simp
qed

lemma synth_column_dates:
  "map fst (map (\<lambda>(d, cells). (d, cells ! j)) (synth_temps g k ds)) = ds"
  by (induction ds arbitrary: k) simp_all

lemma synth_temps_cells:
  "r \<in> set (synth_temps g k ds) \<Longrightarrow> \<exists>a b. snd r = [Some a, Some b]"
  by (induction ds arbitrary: k) auto

lemma synth_column_present:
  assumes "j < 2" "r \<in> set (map (\<lambda>(d, cells). (d, cells ! j)) (synth_temps g k ds))"
  shows "\<exists>x. snd r = Some x"
proof -
  obtain d cells where r: "r = (d, cells ! j)" and "(d, cells) \<in> set (synth_temps g k ds)"
    using assms(2) by auto
  then obtain a b where "cells = [Some a, Some b]"
    using synth_temps_cells by fastforce
  moreover have "j = 0 \<or> j = 1" using assms(1) by auto
  ultimately show ?thesis
    using r by auto
qed

lemma aggregate_synthetic_eq:
  "aggregate \<lparr>columns = [''TMAX'', ''TMIN''], rows = rs, dtype = ty\<rparr> precip hum =
     Inr \<lparr>temp_pivot = \<lparr>columns = [''TMAX'', ''TMIN''], rows = rs, dtype = ty\<rparr>,
          precip_data = precip, humidity_data = hum,
          monthly_tmax_normal = groupby_month mean_skipna (map (\<lambda>(d, cells). (d, cells ! 0)) rs),
          monthly_tmin_normal = groupby_month mean_skipna (map (\<lambda>(d, cells). (d, cells ! 1)) rs),
          monthly_precip_normal = groupby_month (\<lambda>vs. mean vs * 30) precip,
          monthly_precip_actual = groupby_month sum_list precip\<rparr>"
  by (simp add: aggregate_def bind_def column_def)

lemma dummy_data_temperatures:
  assumes "timestamp_ok year"
  shows "\<exists>b. dummy_data g year = Inr b
           \<and> temp_pivot b = \<lparr>columns = [''TMAX'', ''TMIN''], rows = synth_temps g 0 (year_days year), dtype = Object\<rparr>
           \<and> monthly_tmax_normal b
               = groupby_month mean_skipna
                   (map (\<lambda>(d, cells). (d, cells ! 0)) (synth_temps g 0 (year_days year)))
           \<and> monthly_tmin_normal b
               = groupby_month mean_skipna
                   (map (\<lambda>(d, cells). (d, cells ! 1)) (synth_temps g 0 (year_days year)))"
  by (simp add: dummy_data_def year_dates_ok [OF assms] bind_def Let_def aggregate_synthetic_eq)

lemma present_month_values:
  assumes "r \<in> set col" "snd r = Some x"
  shows "present (month_values (mon (fst r)) col) \<noteq> []"
proof -
  have "Some x \<in> set (month_values (mon (fst r)) col)"
    using assms by (force simp: month_values_def)
  then show ?thesis
    by (force simp: present_def)
qed

lemma groupby_mean_present:
  assumes "\<And>r. r \<in> set col \<Longrightarrow> \<exists>x. snd r = Some x" "r \<in> set col"
  shows "\<exists>x. map_of (groupby_month mean_skipna col) (mon (fst r)) = Some (Some x)"
proof -
  obtain x where "snd r = Some x" using assms by blast
  then have "present (month_values (mon (fst r)) col) \<noteq> []"
    using assms(2) by (rule present_month_values [rotated])
  then show ?thesis
    using assms(2) by (simp add: map_of_groupby_month mean_skipna_def)
qed

lemma first_extreme_present:
  assumes "r \<in> set col" "snd r = Some x"
  shows "first_extreme better col \<noteq> None"
  using assms
proof (induction col)
  case Nil
  then show ?case by simp
next
  case (Cons c col)
  then show ?case
    by (cases c) (auto split: option.splits)
qed

lemma in_set_map_fst: "x \<in> set (map fst xs) \<Longrightarrow> \<exists>r. r \<in> set xs \<and> fst r = x"
  by auto

lemma synthetic_column_normals:
  assumes "j < 2" "m \<in> {1..12}"
  shows "\<exists>x. map_of (groupby_month mean_skipna
                  (map (\<lambda>(d, cells). (d, cells ! j)) (synth_temps g k (year_days y)))) m
               = Some (Some x)"
proof -
  let ?col = "map (\<lambda>(d, cells). (d, cells ! j)) (synth_temps g k (year_days y))"
  have "first_of_month y m \<in> set (map fst ?col)"
    unfolding synth_column_dates by (rule first_of_month_in_year [OF assms(2)])
  then have "\<exists>r. r \<in> set ?col \<and> fst r = first_of_month y m"
    by (rule in_set_map_fst)
  then obtain r where r: "r \<in> set ?col" "fst r = first_of_month y m"
    by (elim exE conjE)
  have "\<exists>x. map_of (groupby_month mean_skipna ?col) (mon (fst r)) = Some (Some x)"
    using synth_column_present [OF assms(1)] r(1) by (rule groupby_mean_present)
  then show ?thesis
    by (simp add: r(2) first_of_month_def)
qed

lemma normal_line_returns:
  assumes "timestamp_ok year" "\<And>m. m \<in> {1..12} \<Longrightarrow> \<exists>x. map_of nm m = Some (Some x)"
  shows "\<exists>line. normal_line year nm = Inr line \<and> length line = days_in_year year"
proof -
  have "\<forall>m\<in>{1..12}. map_of nm m = Some (Some (the (the (map_of nm m))))"
    using assms(2) by fastforce
  from normal_line_on_month_starts [OF assms(1) this]
  show ?thesis by blast
qed

lemma fallback_draw_raises:
  assumes "timestamp_ok year" "load_files (env_files env) (env_rng env) = Inl e"
  shows "draw env year = Inl TypeError"
proof -
  let ?g = "env_rng env"
  let ?rows = "synth_temps ?g 0 (year_days year)"
  obtain b where b: "dummy_data ?g year = Inr b"
      "temp_pivot b = \<lparr>columns = [''TMAX'', ''TMIN''], rows = ?rows, dtype = Object\<rparr>"
    using dummy_data_temperatures [OF assms(1), of ?g] by blast
  have ld: "load_data (env_files env) ?g year = Inr b"
    by (simp add: load_data_fallback [OF assms(2)] b(1))
  have c0: "column (temp_pivot b) ''TMAX'' = Inr (map (\<lambda>(d, cells). (d, cells ! 0)) ?rows)"
    and c1: "column (temp_pivot b) ''TMIN'' = Inr (map (\<lambda>(d, cells). (d, cells ! 1)) ?rows)"
    by (simp_all add: column_def b(2))
  have fb: "fill_between (temp_pivot b) = Inl TypeError"
    by (simp add: fill_between_def b(2))
  show ?thesis
    unfolding draw_def ld bind_def sum.case c0 c1 fb ..
qed

lemma draw_object_table_raises:
  assumes "load_data (env_files env) (env_rng env) year = Inr b" "dtype (temp_pivot b) = Object"
  shows "\<exists>e. draw env year = Inl e"
proof -
  have "fill_between (temp_pivot b) = Inl TypeError"
    by (simp add: fill_between_def assms(2))
  then show ?thesis
    by (simp add: draw_def assms(1) bind_def split: sum.split)
qed

lemma draw_loader_raises:
  "load_data (env_files env) (env_rng env) year = Inl e \<Longrightarrow> draw env year = Inl e"
  by (simp add: draw_def bind_def)

lemma draw_savefig_raises:
  assumes "env_savefig env = Some e"
  shows "\<exists>e'. draw env year = Inl e'"
  by (simp add: draw_def bind_def assms split: sum.split)

lemma draw_no_files_1999: "draw no_files_env 1999 = Inl TypeError"
  by (rule fallback_draw_raises [where e = FileNotFoundError])
    (simp_all add: timestamp_ok_def no_files_env_def load_files_no_files)

lemma draw_no_files_1980: "draw no_files_env 1980 = Inl TypeError"
  by (rule fallback_draw_raises [where e = FileNotFoundError])
    (simp_all add: timestamp_ok_def no_files_env_def load_files_no_files)

subsection \<open>What the primary load returns\<close>

lemma pivot_index:
  assumes "pivot temp_data = Inr tp"
  shows "set (index tp) = set (map (\<lambda>(d, v, k). d) temp_data)" and "distinct (index tp)"
proof -
  have tp: "index tp = sort_key ordinal (remdups (map (\<lambda>(d, v, k). d) temp_data))"
    using assms by (auto simp: pivot_def index_def Let_def comp_def split: if_splits)
  show "set (index tp) = set (map (\<lambda>(d, v, k). d) temp_data)"
    unfolding tp by simp
  show "distinct (index tp)"
    unfolding tp by simp
qed

lemma read_csv_Inr: "read_csv f = Inr rs \<longleftrightarrow> f = Parsed rs"
  by (cases f) (simp_all add: read_csv_def)

lemma load_files_Inr_parts:
  assumes "load_files fs g = Inr b"
  shows "\<exists>temp_data tp precip. temperatures fs = Parsed temp_data \<and> pivot temp_data = Inr tp
           \<and> precipitation fs = Parsed precip \<and> temp_pivot b = tp \<and> precip_data b = precip"
proof -
  from assms obtain temp_data tp precip hum where
      "read_csv (temperatures fs) = Inr temp_data" "pivot temp_data = Inr tp"
      "read_csv (precipitation fs) = Inr precip" "aggregate tp precip hum = Inr b"
    by (auto simp: load_files_def bind_Inr_iff split: if_splits)
  then show ?thesis
    using aggregate_Inr(1,2) [of tp precip hum b] by (auto simp: read_csv_Inr)
qed

lemma load_files_sample_files:
  "load_files sample_files g =
     Inr \<lparr>temp_pivot = \<lparr>columns = [''TMAX'', ''TMIN''],
                         rows = [(Date 2023 3 5, [Some 40, Some 30])], dtype = Float64\<rparr>,
          precip_data = [(Date 2023 3 5, 1 / 2), (Date 2023 3 6, 3 / 2)],
          humidity_data = [(Date 2023 3 5, real (30 + random_integer g 0 mod 50))],
          monthly_tmax_normal = [(3, Some 40)], monthly_tmin_normal = [(3, Some 30)],
          monthly_precip_normal = [(3, 30)], monthly_precip_actual = [(3, 2)]\<rparr>"
  by (simp add: load_files_def sample_files_def try_except_def bind_def
      exists_file_def read_csv_def pivot_sample load_humidity_def dummy_humidity_def index_def
      randint_def aggregate_def column_def groupby_month_def month_keys_def month_values_def
      mean_skipna_def present_def mean_def)

subsection \<open>The renderer on files that cover the twelve months\<close>

lemma ordinal_2023: "ordinal (Date 2023 m 15) = 738535 + int (days_before_month 2023 m)"
  by (simp add: ordinal_def dayofyear_def days_before_year_def)

lemma dbm_values:
  "days_before_month 2023 (Suc 0) = 0" "days_before_month 2023 2 = 31" "days_before_month 2023 3 = 59"
  "days_before_month 2023 4 = 90" "days_before_month 2023 5 = 120" "days_before_month 2023 6 = 151"
  "days_before_month 2023 7 = 181" "days_before_month 2023 8 = 212" "days_before_month 2023 9 = 243"
  "days_before_month 2023 10 = 273" "days_before_month 2023 11 = 304" "days_before_month 2023 12 = 334"
  by (simp_all add: days_before_month_def upt_conv_Cons days_in_month_def is_leap_def)

lemma pivot_monthly:
  "pivot (concat (map (\<lambda>m. [(Date 2023 m 15, 50, ''TMAX''), (Date 2023 m 15, 40, ''TMIN'')]) [1..<13]))
     = Inr \<lparr>columns = [''TMAX'', ''TMIN''],
            rows = map (\<lambda>m. (Date 2023 m 15, [Some 50, Some 40])) [1..<13],
            dtype = Float64\<rparr>"
  unfolding months_of_year
  by (simp add: pivot_def ordinal_2023 dbm_values)

lemma groupby_mean_of_row:
  assumes "r \<in> set col" "snd r = Some x"
  shows "\<exists>y. map_of (groupby_month mean_skipna col) (mon (fst r)) = Some (Some y)"
proof -
  have "present (month_values (mon (fst r)) col) \<noteq> []"
    using assms by (rule present_month_values)
  then show ?thesis
    using assms(1) by (simp add: map_of_groupby_month mean_skipna_def)
qed

lemma load_files_normals:
  assumes "temperatures fs = Parsed temp_data" "pivot temp_data = Inr tp"
    "column tp ''TMAX'' = Inr tmax" "column tp ''TMIN'' = Inr tmin"
    "precipitation fs = Parsed precip"
  shows "\<exists>b. load_files fs g = Inr b \<and> temp_pivot b = tp
           \<and> monthly_tmax_normal b = groupby_month mean_skipna tmax
           \<and> monthly_tmin_normal b = groupby_month mean_skipna tmin"
proof -
  obtain hum where hum: "load_humidity fs g tp = Inr hum"
    by (cases "humidity fs")
      (simp_all add: load_humidity_def exists_file_def read_csv_def try_except_def)
  show ?thesis
    by (simp add: load_files_def assms exists_file_def read_csv_def bind_def hum aggregate_def)
qed

lemma primary_draw_succeeds:
  assumes "timestamp_ok year"
    and "load_files (env_files env) (env_rng env) = Inr b"
    and "dtype (temp_pivot b) = Float64"
    and "column (temp_pivot b) ''TMAX'' = Inr tmax" "column (temp_pivot b) ''TMIN'' = Inr tmin"
    and "monthly_tmax_normal b = groupby_month mean_skipna tmax"
    and "monthly_tmin_normal b = groupby_month mean_skipna tmin"
    and "\<And>m. m \<in> {1..12} \<Longrightarrow> \<exists>d x. (d, Some x) \<in> set tmax \<and> mon d = m"
    and "\<And>m. m \<in> {1..12} \<Longrightarrow> \<exists>d x. (d, Some x) \<in> set tmin \<and> mon d = m"
    and "env_savefig env = None"
  shows "draw env year = Inr ()"
proof -
  have ld: "load_data (env_files env) (env_rng env) year = Inr b"
    by (rule load_data_primary [OF assms(2)])
  have fb: "fill_between (temp_pivot b) = Inr ()"
    by (simp add: fill_between_def assms(3))
  have n0: "\<exists>x. map_of (monthly_tmax_normal b) m = Some (Some x)" if m: "m \<in> {1..12}" for m
  proof -
    obtain d x where "(d, Some x) \<in> set tmax" "mon d = m"
      using assms(8) [OF m] by blast
    then show ?thesis
      using groupby_mean_of_row [of "(d, Some x)" tmax x] by (simp add: assms(6))
  qed
  have n1: "\<exists>x. map_of (monthly_tmin_normal b) m = Some (Some x)" if m: "m \<in> {1..12}" for m
  proof -
    obtain d x where "(d, Some x) \<in> set tmin" "mon d = m"
      using assms(9) [OF m] by blast
    then show ?thesis
      using groupby_mean_of_row [of "(d, Some x)" tmin x] by (simp add: assms(7))
  qed
  obtain l0 where l0: "normal_line year (monthly_tmax_normal b) = Inr l0"
    using normal_line_returns [OF assms(1) n0] by blast
  obtain l1 where l1: "normal_line year (monthly_tmin_normal b) = Inr l1"
    using normal_line_returns [OF assms(1) n1] by blast
  have seven: "(7::nat) \<in> {1..12}" by simp
  obtain d0 x0 where "(d0, Some x0) \<in> set tmax"
    using assms(8) [OF seven] by blast
  then have "first_extreme (\<lambda>a b. b < a) tmax \<noteq> None"
    by (rule first_extreme_present) simp
  then obtain dmax where dmax: "idxmax tmax = Inr dmax"
    by (auto simp: idxmax_def split: option.splits)
  obtain d1 x1 where "(d1, Some x1) \<in> set tmin"
    using assms(9) [OF seven] by blast
  then have "first_extreme (\<lambda>a b. a < b) tmin \<noteq> None"
    by (rule first_extreme_present) simp
  then obtain dmin where dmin: "idxmin tmin = Inr dmin"
    by (auto simp: idxmin_def split: option.splits)
  show ?thesis
    unfolding draw_def ld bind_def sum.case assms(4,5) fb l0 l1 dmax dmin assms(10) option.case ..
qed

lemma draw_monthly_env: "draw monthly_env 2023 = Inr ()"
proof -
  let ?tp = "\<lparr>columns = [''TMAX'', ''TMIN''],
            rows = map (\<lambda>m. (Date 2023 m 15, [Some 50, Some 40])) [1..<13],
            dtype = Float64\<rparr>"
  let ?tmax = "map (\<lambda>m. (Date 2023 m 15, Some (50::real))) [1..<13]"
  let ?tmin = "map (\<lambda>m. (Date 2023 m 15, Some (40::real))) [1..<13]"
  have c0: "column ?tp ''TMAX'' = Inr ?tmax" and c1: "column ?tp ''TMIN'' = Inr ?tmin"
    by (simp_all add: column_def comp_def del: upt_Suc)
  have t: "temperatures monthly_files = Parsed (concat (map (\<lambda>m. [(Date 2023 m 15, 50, ''TMAX''),
             (Date 2023 m 15, 40, ''TMIN'')]) [1..<13]))"
    and p: "precipitation monthly_files = Parsed (map (\<lambda>m. (Date 2023 m 15, 1 / 2)) [1..<13])"
    by (simp_all add: monthly_files_def del: upt_Suc)
  obtain b where b: "load_files monthly_files zero_rng = Inr b" "temp_pivot b = ?tp"
      "monthly_tmax_normal b = groupby_month mean_skipna ?tmax"
      "monthly_tmin_normal b = groupby_month mean_skipna ?tmin"
    using load_files_normals [OF t pivot_monthly c0 c1 p, of zero_rng] by blast
  show ?thesis
  proof (rule primary_draw_succeeds [where b = b and tmax = ?tmax and tmin = ?tmin])
    show "timestamp_ok 2023" by (simp add: timestamp_ok_def)
    show "load_files (env_files monthly_env) (env_rng monthly_env) = Inr b"
      by (simp add: monthly_env_def b(1))
    show "dtype (temp_pivot b) = Float64" by (simp add: b(2))
    show "column (temp_pivot b) ''TMAX'' = Inr ?tmax" unfolding b(2) by (rule c0)
    show "column (temp_pivot b) ''TMIN'' = Inr ?tmin" unfolding b(2) by (rule c1)
    show "monthly_tmax_normal b = groupby_month mean_skipna ?tmax" by (rule b(3))
    show "monthly_tmin_normal b = groupby_month mean_skipna ?tmin" by (rule b(4))
    show "\<exists>d x. (d, Some x) \<in> set ?tmax \<and> mon d = m" if "m \<in> {1..12}" for m
      using that by (intro exI [of _ "Date 2023 m 15"] exI [of _ 50]) (simp del: upt_Suc)
    show "\<exists>d x. (d, Some x) \<in> set ?tmin \<and> mon d = m" if "m \<in> {1..12}" for m
      using that by (intro exI [of _ "Date 2023 m 15"] exI [of _ 40]) (simp del: upt_Suc)
    show "env_savefig monthly_env = None" by (simp add: monthly_env_def)
  qed
qed

lemma draw_normal_line_raises:
  assumes "load_data (env_files env) (env_rng env) year = Inr b"
    "normal_line year (monthly_tmax_normal b) = Inl e"
  shows "\<exists>e'. draw env year = Inl e'"
  by (simp add: draw_def assms bind_def split: sum.split)

section \<open>The claims\<close>

text \<open>\<^bold>\<open>Claim C1.\<close> The loader returns a complete bundle and raises nothing, whatever the
  state of the files and the draws of the generator, for every year from 1678 to 2261.
  For a year outside, the handler itself raises when it builds the date range, and the
  exception leaves \<^verbatim>\<open>load_data\<close>: year 3000 with no file present.\<close>

theorem load_data_returns_bundle:
  assumes "timestamp_ok year"
  shows "\<exists>b. load_data fs g year = Inr b"
proof (cases "load_files fs g")
  case (Inl e)
  then show ?thesis
    using dummy_data_returns [OF assms, of g] by (auto simp: load_data_fallback)
next
  case (Inr b)
  then show ?thesis by (simp add: load_data_primary)
qed

theorem load_data_returns_bundle_witness:
  "timestamp_ok 1999 \<and> (\<exists>b. load_data no_files zero_rng 1999 = Inr b)"
  using load_data_returns_bundle [of 1999 no_files zero_rng] by (simp add: timestamp_ok_def)

theorem load_data_raises_counterexample:
  "load_data no_files zero_rng 3000 = Inl OutOfBoundsDatetime"
  by (simp add: load_data_fallback [OF load_files_no_files] dummy_data_raises timestamp_ok_def)

text \<open>\<^bold>\<open>Claim C2.\<close> For a year from 1678 to 2261: on the synthetic path (the
  primary load raised) the temperature and precipitation tables have the same index,
  which holds every calendar day of the year exactly once, 365 rows or 366 in a leap
  year; on the primary path the temperature table has one row for each date that
  occurs in the temperature file and the precipitation table is the rows of the
  precipitation file.  Nothing fills the gaps of the files: a temperature file with
  one date gives a table with one row.\<close>

theorem fallback_tables_span_year:
  assumes "timestamp_ok year"
  shows "(\<forall>e. load_files fs g = Inl e \<longrightarrow>
            (\<exists>b. load_data fs g year = Inr b
               \<and> index (temp_pivot b) = map fst (precip_data b)
               \<and> length (index (temp_pivot b)) = days_in_year year
               \<and> (days_in_year year = 366 \<longleftrightarrow> is_leap year)
               \<and> (days_in_year year = 365 \<longleftrightarrow> \<not> is_leap year)
               \<and> distinct (index (temp_pivot b))
               \<and> set (index (temp_pivot b)) = {d. yr d = year \<and> valid_date d}))
       \<and> (\<forall>b. load_files fs g = Inr b \<longrightarrow>
            load_data fs g year = Inr b
            \<and> (\<exists>temp_data precip. temperatures fs = Parsed temp_data
                  \<and> precipitation fs = Parsed precip
                  \<and> set (index (temp_pivot b)) = set (map (\<lambda>(d, v, k). d) temp_data)
                  \<and> distinct (index (temp_pivot b))
                  \<and> precip_data b = precip))"
proof (intro conjI allI impI)
  fix e assume fail: "load_files fs g = Inl e"
  obtain b where b: "dummy_data g year = Inr b"
      "rows (temp_pivot b) = synth_temps g 0 (year_days year)"
      "precip_data b = zip (year_days year) (exponential g (1 / 10) (length (year_days year)))"
    using dummy_data_returns [OF assms(1), of g] by blast
  have idx: "index (temp_pivot b) = year_days year"
    by (simp add: index_def b(2) map_fst_synth_temps)
  have pre: "map fst (precip_data b) = year_days year"
    by (simp add: b(3) length_exponential)
  have "load_data fs g year = Inr b"
    by (simp add: load_data_fallback [OF fail] b(1))
  moreover have "length (year_days year) = days_in_year year"
    by (rule length_year_days)
  moreover have "distinct (year_days year)"
    unfolding year_days_def by (rule distinct_year_range)
  moreover have "set (year_days year) = {d. yr d = year \<and> valid_date d}"
    by (rule set_year_days)
  moreover have "(days_in_year year = 366 \<longleftrightarrow> is_leap year)" "(days_in_year year = 365 \<longleftrightarrow> \<not> is_leap year)"
    by (simp_all add: days_in_year_def)
  ultimately show "\<exists>b. load_data fs g year = Inr b
               \<and> index (temp_pivot b) = map fst (precip_data b)
               \<and> length (index (temp_pivot b)) = days_in_year year
               \<and> (days_in_year year = 366 \<longleftrightarrow> is_leap year)
               \<and> (days_in_year year = 365 \<longleftrightarrow> \<not> is_leap year)
               \<and> distinct (index (temp_pivot b))
               \<and> set (index (temp_pivot b)) = {d. yr d = year \<and> valid_date d}"
    by (simp add: idx pre)
next
  fix b assume ok: "load_files fs g = Inr b"
  then show "load_data fs g year = Inr b"
    by (rule load_data_primary)
  from load_files_Inr_parts [OF ok] pivot_index
  show "\<exists>temp_data precip. temperatures fs = Parsed temp_data
                  \<and> precipitation fs = Parsed precip
                  \<and> set (index (temp_pivot b)) = set (map (\<lambda>(d, v, k). d) temp_data)
                  \<and> distinct (index (temp_pivot b))
                  \<and> precip_data b = precip"
    by blast
qed

theorem fallback_tables_span_year_witness:
  "timestamp_ok 1999 \<and> load_files no_files zero_rng = Inl FileNotFoundError
     \<and> (\<exists>b. load_data no_files zero_rng 1999 = Inr b
           \<and> length (index (temp_pivot b)) = 365
           \<and> set (index (temp_pivot b)) = {d. yr d = 1999 \<and> valid_date d})
     \<and> (\<exists>b. load_files sample_files zero_rng = Inr b \<and> set (index (temp_pivot b)) = {Date 2023 3 5}
           \<and> map fst (precip_data b) = [Date 2023 3 5, Date 2023 3 6])"
proof -
  have ok: "timestamp_ok 1999" by (simp add: timestamp_ok_def)
  have n: "days_in_year 1999 = 365" by (simp add: days_in_year_def is_leap_def)
  obtain b where b: "load_files sample_files zero_rng = Inr b"
    using load_files_sample_files [of zero_rng] by simp
  have first: "\<exists>b. load_data no_files zero_rng 1999 = Inr b
           \<and> length (index (temp_pivot b)) = 365
           \<and> set (index (temp_pivot b)) = {d. yr d = 1999 \<and> valid_date d}"
    using fallback_tables_span_year [OF ok, of no_files zero_rng] n
    by (auto simp: load_files_no_files)
  have second: "set (index (temp_pivot b)) = {Date 2023 3 5}
           \<and> map fst (precip_data b) = [Date 2023 3 5, Date 2023 3 6]"
    using fallback_tables_span_year [OF ok, of sample_files zero_rng] b
    by (auto simp: sample_files_def)
  have third: "\<exists>b. load_files sample_files zero_rng = Inr b
           \<and> set (index (temp_pivot b)) = {Date 2023 3 5}
           \<and> map fst (precip_data b) = [Date 2023 3 5, Date 2023 3 6]"
    using b second by (intro exI [of _ b]) simp
  show ?thesis
    by (intro conjI) (rule ok, rule load_files_no_files, rule first, rule third)
qed

theorem primary_tables_not_dense_counterexample:
  "\<exists>b. load_data sample_files zero_rng 2023 = Inr b
       \<and> length (index (temp_pivot b)) = 1 \<and> length (precip_data b) = 2
       \<and> days_in_year 2023 = 365"
  by (simp add: load_data_sample_files index_def days_in_year_def is_leap_def)




text \<open>\<^bold>\<open>Claim C4.\<close> The seasonal factor of the synthetic temperatures is
  \<^verbatim>\<open>sin(2 * pi * day_of_year / 365)\<close> with no phase shift: it peaks in early April
  and is lowest in early October.  The base values of every day of July are below
  those of every day of January, in every year, so the synthetic summer is not the
  warm season.\<close>

theorem synthetic_july_colder_than_january:
  assumes "valid_date i" "mon i = 1" "valid_date j" "mon j = 7"
  shows "tmax_base j < tmax_base i \<and> tmin_base j < tmin_base i"
proof -
  have "seasonal_factor j < sin (2 * pi / 365)"
    unfolding seasonal_factor_def using dayofyear_july [OF assms(3,4)] by (intro sin_mid_year) simp_all
  also have "\<dots> \<le> seasonal_factor i"
    unfolding seasonal_factor_def using dayofyear_january [OF assms(1,2)] by (intro sin_early_year) simp_all
  finally show ?thesis
    by (simp add: tmax_base_def tmin_base_def)
qed

theorem synthetic_july_colder_than_january_witness:
  "valid_date (Date 1999 1 15) \<and> valid_date (Date 1999 7 15)
   \<and> dayofyear (Date 1999 1 15) = 15 \<and> dayofyear (Date 1999 7 15) = 196
   \<and> tmax_base (Date 1999 7 15) < tmax_base (Date 1999 1 15)"
proof -
  have jan: "valid_date (Date 1999 1 15)" and jul: "valid_date (Date 1999 7 15)"
    by (simp_all add: valid_date_def days_in_month_def)
  have "dayofyear (Date 1999 1 15) = 15"
    by (simp add: dayofyear_def days_before_month_def)
  moreover have "dayofyear (Date 1999 7 15) = 196"
    by (simp add: dayofyear_def days_before_july is_leap_def)
  ultimately show ?thesis
    using synthetic_july_colder_than_january [OF jan _ jul] jan jul by simp
qed

text \<open>\<^bold>\<open>Claim C5.\<close> The renderer always returns a boolean and raises nothing:
  \<open>False\<close> exactly when something in its body raises, \<open>True\<close> exactly when the body
  runs to its end.  In particular it returns \<open>False\<close> when the loader raises, when
  the layout raises (\<^verbatim>\<open>fill_between\<close> on the \<^verbatim>\<open>object\<close> columns of the synthetic
  table, a month missing from the normals) and when the output file cannot be written.
  The entry point exits with 0 exactly when the year argument is read and the renderer
  returns \<open>True\<close>, and with 1 otherwise: when the renderer returns \<open>False\<close> or when
  reading the year raises.\<close>

theorem renderer_returns_bool_and_exit_code:
  "(\<exists>ok. create_tufte_visualization env year = Inr ok)
   \<and> (create_tufte_visualization env year = Inr False \<longleftrightarrow> (\<exists>e. draw env year = Inl e))
   \<and> (create_tufte_visualization env year = Inr True \<longleftrightarrow> draw env year = Inr ())
   \<and> (\<forall>e. load_data (env_files env) (env_rng env) year = Inl e
          \<longrightarrow> create_tufte_visualization env year = Inr False)
   \<and> (\<forall>b. load_data (env_files env) (env_rng env) year = Inr b \<and> dtype (temp_pivot b) = Object
          \<longrightarrow> create_tufte_visualization env year = Inr False)
   \<and> (\<forall>b e. load_data (env_files env) (env_rng env) year = Inr b
            \<and> normal_line year (monthly_tmax_normal b) = Inl e
          \<longrightarrow> create_tufte_visualization env year = Inr False)
   \<and> (\<forall>e. env_savefig env = Some e \<longrightarrow> create_tufte_visualization env year = Inr False)
   \<and> main py_int env argv
        = (if \<exists>y. (if length argv > 1 then py_int (argv ! 1) else Inr 1980) = Inr y
                 \<and> create_tufte_visualization env y = Inr True
           then 0 else 1)"
proof -
  have a: "\<exists>ok. create_tufte_visualization env year = Inr ok"
    by (cases "draw env year") (auto simp: create_tufte_visualization_cases)
  have b: "create_tufte_visualization env y = Inr False \<longleftrightarrow> (\<exists>e. draw env y = Inl e)" for y
    by (cases "draw env y") (simp_all add: create_tufte_visualization_cases)
  have c: "create_tufte_visualization env year = Inr True \<longleftrightarrow> draw env year = Inr ()"
    by (cases "draw env year") (simp_all add: create_tufte_visualization_cases)
  have l: "create_tufte_visualization env year = Inr False"
    if "load_data (env_files env) (env_rng env) year = Inl e" for e
    using draw_loader_raises [OF that] by (simp add: b)
  have f: "create_tufte_visualization env year = Inr False"
    if "load_data (env_files env) (env_rng env) year = Inr b \<and> dtype (temp_pivot b) = Object" for b
    using draw_object_table_raises [of env year b] that by (simp add: b)
  have n: "create_tufte_visualization env year = Inr False"
    if "load_data (env_files env) (env_rng env) year = Inr b
          \<and> normal_line year (monthly_tmax_normal b) = Inl e" for b e
    using draw_normal_line_raises [of env year b e] that by (simp add: b)
  have s: "create_tufte_visualization env year = Inr False" if "env_savefig env = Some e" for e
    using draw_savefig_raises [OF that, of year] by (simp add: b)
  have d: "main py_int env argv
        = (if \<exists>y. (if length argv > 1 then py_int (argv ! 1) else Inr 1980) = Inr y
                 \<and> create_tufte_visualization env y = Inr True
           then 0 else 1)"
  proof (cases "if length argv > 1 then py_int (argv ! 1) else Inr 1980")
    case (Inl e)
    then show ?thesis
      by (simp add: main_def try_except_def bind_def)
  next
    case (Inr y)
    show ?thesis
    proof (cases "draw env y")
      case (Inl e)
      then show ?thesis
        using Inr by (simp add: main_def try_except_def bind_def create_tufte_visualization_cases)
    next
      case (Inr u)
      then show ?thesis
        using \<open>(if length argv > 1 then py_int (argv ! 1) else Inr 1980) = Inr y\<close>
        by (simp add: main_def try_except_def bind_def create_tufte_visualization_cases)
    qed
  qed
  show ?thesis
    using a b [of year] c l f n s d by blast
qed

theorem renderer_returns_bool_and_exit_code_witness:
  "create_tufte_visualization monthly_env 2023 = Inr True
   \<and> main (\<lambda>s. Inr 2023) monthly_env [''visualize.py'', ''2023''] = 0
   \<and> env_savefig unwritable_env = Some OSError
   \<and> create_tufte_visualization unwritable_env 2023 = Inr False
   \<and> main (\<lambda>s. Inr 2023) unwritable_env [''visualize.py'', ''2023''] = 1
   \<and> draw no_files_env 1999 = Inl TypeError
   \<and> create_tufte_visualization no_files_env 1999 = Inr False
   \<and> main (\<lambda>s. Inr 1999) no_files_env [''visualize.py'', ''1999''] = 1
   \<and> main (\<lambda>s. Inl ValueError) no_files_env [''visualize.py''] = 1
   \<and> draw no_files_env 3000 = Inl OutOfBoundsDatetime
   \<and> create_tufte_visualization no_files_env 3000 = Inr False
   \<and> main (\<lambda>s. Inl ValueError) monthly_env [''visualize.py'', ''abc''] = 1"
proof -
  have sf: "env_savefig unwritable_env = Some OSError"
    by (simp add: unwritable_env_def)
  show ?thesis
    using renderer_returns_bool_and_exit_code [of monthly_env 2023 "\<lambda>s. Inr 2023" "[''visualize.py'', ''2023'']"]
      renderer_returns_bool_and_exit_code [of unwritable_env 2023 "\<lambda>s. Inr 2023" "[''visualize.py'', ''2023'']"]
      renderer_returns_bool_and_exit_code [of no_files_env 1999 "\<lambda>s. Inr 1999" "[''visualize.py'', ''1999'']"]
      renderer_returns_bool_and_exit_code [of no_files_env 1980 "\<lambda>s. Inl ValueError" "[''visualize.py'']"]
      renderer_returns_bool_and_exit_code [of no_files_env 3000 "\<lambda>s. Inl ValueError" "[''visualize.py'', ''abc'']"]
      renderer_returns_bool_and_exit_code [of monthly_env 2023 "\<lambda>s. Inl ValueError" "[''visualize.py'', ''abc'']"]
    by (simp add: draw_monthly_env draw_no_files_1999 draw_no_files_1980 draw_no_files_3000 sf)
qed

text \<open>\<^bold>\<open>Claim C6.\<close> Whenever the loader returns, on either path, the monthly actual
  precipitation of a month is the sum of the precipitation values of the rows of that
  month in the returned precipitation table; a month with no row has no entry, which
  the renderer reads as 0.\<close>

theorem monthly_precip_actual_is_sum:
  assumes "load_data fs g year = Inr b"
  shows "(\<forall>m. get_default (monthly_precip_actual b) m 0 = sum_list (month_values m (precip_data b)))
       \<and> (\<forall>r \<in> set (precip_data b).
            getitem (monthly_precip_actual b) (mon (fst r))
              = Inr (sum_list (month_values (mon (fst r)) (precip_data b))))"
  by (auto simp: load_data_monthly_precip(2) [OF assms] get_default_def getitem_def
        map_of_groupby_month month_values_absent)

theorem monthly_precip_actual_is_sum_witness:
  "(\<exists>b. load_data sample_files zero_rng 2023 = Inr b
       \<and> precip_data b = [(Date 2023 3 5, 1 / 2), (Date 2023 3 6, 3 / 2)]
       \<and> get_default (monthly_precip_actual b) 3 0 = 2
       \<and> get_default (monthly_precip_actual b) 4 0 = 0)
   \<and> (\<exists>b. load_data no_files zero_rng 1999 = Inr b
       \<and> get_default (monthly_precip_actual b) 7 0 = sum_list (month_values 7 (precip_data b)))"
proof -
  obtain b where b: "load_data no_files zero_rng 1999 = Inr b"
    using dummy_data_returns [of 1999 zero_rng]
    by (auto simp: load_data_fallback [OF load_files_no_files] timestamp_ok_def)
  show ?thesis
    using monthly_precip_actual_is_sum [OF load_data_sample_files [of zero_rng 2023]]
      monthly_precip_actual_is_sum [OF b] b
    by (simp add: load_data_sample_files month_values_def)
qed

text \<open>\<^bold>\<open>Claim C7.\<close> Whenever the loader returns, the monthly normal precipitation of a
  month that occurs in the returned precipitation table is the mean of the values of
  that month times 30.\<close>

theorem monthly_precip_normal_is_mean_times_30:
  assumes "load_data fs g year = Inr b"
  shows "\<forall>r \<in> set (precip_data b).
            getitem (monthly_precip_normal b) (mon (fst r))
              = Inr (sum_list (month_values (mon (fst r)) (precip_data b))
                      / real (length (month_values (mon (fst r)) (precip_data b))) * 30)"
  by (auto simp: load_data_monthly_precip(1) [OF assms] getitem_def
        map_of_groupby_month mean_def)

theorem monthly_precip_normal_is_mean_times_30_witness:
  "\<exists>b. load_data sample_files zero_rng 2023 = Inr b
       \<and> precip_data b = [(Date 2023 3 5, 1 / 2), (Date 2023 3 6, 3 / 2)]
       \<and> getitem (monthly_precip_normal b) 3 = Inr (2 / 2 * 30)
       \<and> days_in_month 2023 3 = 31"
  using monthly_precip_normal_is_mean_times_30 [OF load_data_sample_files [of zero_rng 2023]]
  by (simp add: load_data_sample_files month_values_def days_in_month_def)

text \<open>\<^bold>\<open>Claim C8.\<close> The normal line of the temperature panel has one value per day
  of the year, obtained by \<^verbatim>\<open>np.interp\<close> from the twelve monthly normals with the
  anchors at the first day of each month: on the first day of a month the line has
  the normal of that month, between two first days it is the straight line through
  the two normals, and from the first of December on it keeps the December normal
  (there is no later anchor).  Stated for a year from 1678 to 2261 and a mapping that
  has a value for each of the twelve months.\<close>

theorem normal_line_interpolates_month_starts:
  assumes "timestamp_ok year"
    and "\<forall>m\<in>{1..12}. map_of monthly_normal m = Some (Some (v m))"
  shows "\<exists>line. normal_line year monthly_normal = Inr line
     \<and> line = map (\<lambda>d. Some (if mon d = 12 then v 12
                             else (v (Suc (mon d)) - v (mon d))
                                    / (date2num (first_of_month year (Suc (mon d)))
                                         - date2num (first_of_month year (mon d)))
                                    * (date2num d - date2num (first_of_month year (mon d)))
                                  + v (mon d)))
                (year_days year)
     \<and> length line = days_in_year year
     \<and> (\<forall>m\<in>{1..12}.
           map_of (zip (year_days year) line) (first_of_month year m) = Some (Some (v m)))"
  using assms by (rule normal_line_on_month_starts)

theorem normal_line_interpolates_month_starts_witness:
  "timestamp_ok 1999
   \<and> (\<exists>b line x. load_data no_files zero_rng 1999 = Inr b
          \<and> normal_line 1999 (monthly_tmax_normal b) = Inr line
          \<and> length line = 365
          \<and> map_of (monthly_tmax_normal b) 7 = Some (Some x)
          \<and> map_of (zip (year_days 1999) line) (first_of_month 1999 7) = Some (Some x))"
proof -
  have ok: "timestamp_ok 1999" by (simp add: timestamp_ok_def)
  have n: "days_in_year 1999 = 365" by (simp add: days_in_year_def is_leap_def)
  obtain b where b: "dummy_data zero_rng 1999 = Inr b"
      "monthly_tmax_normal b = groupby_month mean_skipna
         (map (\<lambda>(d, cells). (d, cells ! 0)) (synth_temps zero_rng 0 (year_days 1999)))"
    using dummy_data_temperatures [OF ok, of zero_rng] by blast
  have ld: "load_data no_files zero_rng 1999 = Inr b"
    by (simp add: load_data_fallback [OF load_files_no_files] b(1))
  have "\<exists>x. map_of (monthly_tmax_normal b) m = Some (Some x)" if "m \<in> {1..12}" for m
    unfolding b(2) using that by (intro synthetic_column_normals) simp_all
  then have all: "\<forall>m\<in>{1..12}. map_of (monthly_tmax_normal b) m
                    = Some (Some (the (the (map_of (monthly_tmax_normal b) m))))"
    by fastforce
  from normal_line_interpolates_month_starts [OF ok all]
  obtain line where line: "normal_line 1999 (monthly_tmax_normal b) = Inr line"
      "length line = days_in_year 1999"
      "\<forall>m\<in>{1..12}. map_of (zip (year_days 1999) line) (first_of_month 1999 m)
           = Some (Some (the (the (map_of (monthly_tmax_normal b) m))))"
    by blast
  have seven: "(7::nat) \<in> {1..12}" by simp
  show ?thesis
    using ok ld line(1,2) n bspec [OF all seven] bspec [OF line(3) seven] by metis
qed







end
